theory Spec2Isabelle
  imports Complex_Main
begin

section \<open>Nodal circuit analysis with a recorded derivation\<close>

text \<open>
  A shallow embedding of the analysis engine of \<^verbatim>\<open>circuit_analysis_pro.tsx\<close>:
  the unit conversion \<^verbatim>\<open>convertToOhms\<close>, the class \<^verbatim>\<open>Matrix\<close> with its Gaussian
  elimination \<^verbatim>\<open>solve\<close>, and \<^verbatim>\<open>analyzeNodalMethod\<close>.

  Numbers. A JavaScript \<^verbatim>\<open>number\<close> is an IEEE double; here it is a \<^typ>\<open>real\<close>, so
  the arithmetic of the model is exact: rounding, overflow, infinities and NaN are outside
  the model. Two places of the source can leave the finite numbers on well-typed input and
  are marked where they occur: \<^verbatim>\<open>1 / R\<close> and \<^verbatim>\<open>voltage / R\<close> for a resistor of
  0 ohms (Infinity or NaN in JavaScript, 0 in HOL), and a component terminal that names no
  node of the circuit (\<^verbatim>\<open>undefined\<close> in JavaScript). The divisions inside \<^verbatim>\<open>solve\<close>
  are by a pivot whose absolute value has been tested against the tolerance, hence never by 0.
  The numbers of the analysis are modelled a second time over JavaScript numbers with
  infinities, NaN and \<^verbatim>\<open>undefined\<close>, for the statement that depends on these values.

  Text. A JavaScript string is modelled as a \<^typ>\<open>string\<close>; a character outside ASCII is
  written as the bytes of its UTF-8 encoding. The rendering of a number as text
  (\<^verbatim>\<open>Number.prototype.toFixed\<close> and the conversion inside a template literal) belongs to
  the language, not to the program, and is a parameter of the model.
\<close>

subsection \<open>Text helpers\<close>

record numfmt =
  toFixed :: "real \<Rightarrow> nat \<Rightarrow> string"
  toStr :: "real \<Rightarrow> string"

definition nl :: string where "nl = [CHR 0x0A]"
definition Omega :: string where "Omega = [CHR 0xCE, CHR 0xA9]"
definition middot :: string where "middot = [CHR 0xC2, CHR 0xB7]"
definition times_sign :: string where "times_sign = [CHR 0xC3, CHR 0x97]"
definition rarrow :: string where "rarrow = [CHR 0xE2, CHR 0x86, CHR 0x92]"
definition check_mark :: string where "check_mark = [CHR 0xE2, CHR 0x9C, CHR 0x93]"
definition warning_sign :: string where "warning_sign = [CHR 0xE2, CHR 0x9A, CHR 0xA0]"
definition A_acute :: string where "A_acute = [CHR 0xC3, CHR 0x81]"
definition O_acute :: string where "O_acute = [CHR 0xC3, CHR 0x93]"
definition a_acute :: string where "a_acute = [CHR 0xC3, CHR 0xA1]"
definition e_acute :: string where "e_acute = [CHR 0xC3, CHR 0xA9]"
definition i_acute :: string where "i_acute = [CHR 0xC3, CHR 0xAD]"
definition o_acute :: string where "o_acute = [CHR 0xC3, CHR 0xB3]"
definition u_acute :: string where "u_acute = [CHR 0xC3, CHR 0xBA]"

text \<open>\<^verbatim>\<open>Array.prototype.join\<close> and \<^verbatim>\<open>String.prototype.padStart\<close> (padding with spaces).\<close>

fun join :: "string \<Rightarrow> string list \<Rightarrow> string" where
  "join sep [] = []"
| "join sep [s] = s"
| "join sep (s # t # ss) = s @ sep @ join sep (t # ss)"

definition padStart :: "nat \<Rightarrow> string \<Rightarrow> string" where
  "padStart n s = replicate (n - length s) (CHR '' '') @ s"

text \<open>The decimal text of an array index or a length inside a template literal.\<close>

function nat_str :: "nat \<Rightarrow> string" where
  "nat_str n = (if n < 10 then [char_of (48 + n)]
                else nat_str (n div 10) @ [char_of (48 + n mod 10)])"
  by pat_completeness auto
termination
  by (relation "measure id") auto

declare nat_str.simps [simp del]

text \<open>\<^verbatim>\<open>xs.map((x, i) => ...)\<close>: every element with its index.\<close>

definition indexed :: "'a list \<Rightarrow> ('a \<times> nat) list" where
  "indexed xs = zip xs [0..<length xs]"

subsection \<open>Data model\<close>

record Node =
  n_id :: string
  n_name :: string

datatype comp_type = Resistor | VoltageSource | CurrentSource

datatype analysis_method = nodal | mesh

record Component =
  c_id :: string
  c_type :: comp_type
  c_nodes :: "string \<times> string"
  c_value :: real
  c_unit :: string

record Circuit =
  circ_name :: string
  circ_nodes :: "Node list"
  circ_components :: "Component list"
  circ_method :: analysis_method

record Step =
  title :: string
  description :: string
  equations :: "string list option"
  matrix :: "string list list option"
  result :: "string option"

subsection \<open>Unit conversion\<close>

text \<open>
  The table is an object literal; a unit that is not one of its four keys reads
  \<^verbatim>\<open>undefined\<close>, which \<^verbatim>\<open>|| 1\<close> replaces by 1. (A unit equal to the name of a member
  of \<^verbatim>\<open>Object.prototype\<close> would read that member and give NaN; such units are outside the
  model.)
\<close>

definition conversions :: "string \<rightharpoonup> real" where
  "conversions = [Omega \<mapsto> 1, ''k'' @ Omega \<mapsto> 1000, ''M'' @ Omega \<mapsto> 1000000,
                  ''m'' @ Omega \<mapsto> 1 / 1000]"

definition convertToOhms :: "real \<Rightarrow> string \<Rightarrow> real" where
  "convertToOhms v u = v * (case conversions u of Some m \<Rightarrow> m | None \<Rightarrow> 1)"

subsection \<open>The class Matrix\<close>

record Matrix =
  data :: "real list list"
  rows :: nat
  cols :: nat

definition new_Matrix :: "nat \<Rightarrow> nat \<Rightarrow> real \<Rightarrow> Matrix" where
  "new_Matrix r c initialValue =
     \<lparr>data = replicate r (replicate c initialValue), rows = r, cols = c\<rparr>"

text \<open>
  \<^verbatim>\<open>set\<close>, \<^verbatim>\<open>get\<close> and \<^verbatim>\<open>add\<close>. The analysis calls them with a row below
  \<^verbatim>\<open>rows\<close> and a column below \<^verbatim>\<open>cols\<close> only (or with the column \<^verbatim>\<open>undefined\<close>,
  which is handled at the call), so the behaviour of a JavaScript array outside its range is
  not needed.
\<close>

definition set_entry :: "Matrix \<Rightarrow> nat \<Rightarrow> nat \<Rightarrow> real \<Rightarrow> Matrix" where
  "set_entry M row col v = M\<lparr>data := (data M)[row := (data M ! row)[col := v]]\<rparr>"

definition get_entry :: "Matrix \<Rightarrow> nat \<Rightarrow> nat \<Rightarrow> real" where
  "get_entry M row col = data M ! row ! col"

definition add_entry :: "Matrix \<Rightarrow> nat \<Rightarrow> nat \<Rightarrow> real \<Rightarrow> Matrix" where
  "add_entry M row col v =
     M\<lparr>data := (data M)[row := (data M ! row)[col := data M ! row ! col + v]]\<rparr>"

definition toArray :: "Matrix \<Rightarrow> real list list" where
  "toArray M = data M"

subsection \<open>Gaussian elimination with partial pivoting\<close>

definition tolerance :: real where
  "tolerance = 1 / 10 ^ 10"

definition formatAugmented :: "numfmt \<Rightarrow> real list list \<Rightarrow> string" where
  "formatAugmented F aug =
     join nl (map (\<lambda>row.
        ''['' @ join '' '' (map (\<lambda>v. padStart 10 (toFixed F v 4)) (butlast row))
        @ '' | '' @ padStart 10 (toFixed F (last row) 4) @ '']'') aug)"

text \<open>The titles of the records of a row swap, of an elimination and of the solution.\<close>

definition swap_title :: "nat \<Rightarrow> nat \<Rightarrow> string" where
  "swap_title i maxRow =
     ''Paso '' @ nat_str (i + 1) @ ''a: Intercambiar fila '' @ nat_str (i + 1) @ '' con fila ''
     @ nat_str (maxRow + 1)"

definition eliminate_title :: "numfmt \<Rightarrow> nat \<Rightarrow> nat \<Rightarrow> real \<Rightarrow> string" where
  "eliminate_title F i k factor =
     ''Paso '' @ nat_str (i + 1) @ ''b: F'' @ nat_str (k + 1) @ '' = F'' @ nat_str (k + 1)
     @ '' - ('' @ toFixed F factor 4 @ '') '' @ times_sign @ '' F'' @ nat_str (i + 1)"

definition solution_record :: "numfmt \<Rightarrow> real list \<Rightarrow> string \<times> string" where
  "solution_record F x =
     (''Sustituci'' @ o_acute @ ''n hacia atr'' @ a_acute @ ''s:'',
      join nl (map (\<lambda>(v, idx). ''x'' @ nat_str (idx + 1) @ '' = '' @ toFixed F v 6) (indexed x)))"

text \<open>The pivot search: the first row from \<open>i\<close> on with the largest absolute value in column \<open>i\<close>.\<close>

definition find_pivot :: "real list list \<Rightarrow> nat \<Rightarrow> nat \<Rightarrow> nat" where
  "find_pivot aug i n =
     fold (\<lambda>k maxRow. if \<bar>aug ! k ! i\<bar> > \<bar>aug ! maxRow ! i\<bar> then k else maxRow) [i + 1..<n] i"

text \<open>The body of the elimination loop for row \<open>k\<close> under the pivot row \<open>i\<close>.\<close>

definition eliminate_row ::
  "numfmt \<Rightarrow> nat \<Rightarrow> nat \<Rightarrow> nat \<Rightarrow> real list list \<times> (string \<times> string) list
     \<Rightarrow> real list list \<times> (string \<times> string) list" where
  "eliminate_row F i n k st =
     (case st of (aug, steps) \<Rightarrow>
        let factor = aug ! k ! i / aug ! i ! i in
        if \<bar>factor\<bar> > tolerance then
          let aug' = fold (\<lambda>j a. a[k := (a ! k)[j := a ! k ! j - factor * a ! i ! j]])
                       [i..<n + 1] aug
          in (aug', steps @ [(eliminate_title F i k factor, formatAugmented F aug')])
        else (aug, steps))"

text \<open>
  The first half of a round of the outer loop, for pivot row \<open>i\<close>: the pivot search and
  the swap that brings the row found to position \<open>i\<close>.
\<close>

definition swap_pivot ::
  "numfmt \<Rightarrow> nat \<Rightarrow> nat \<Rightarrow> real list list \<Rightarrow> (string \<times> string) list
     \<Rightarrow> real list list \<times> (string \<times> string) list" where
  "swap_pivot F i n aug steps =
     (let maxRow = find_pivot aug i n
      in if maxRow \<noteq> i
         then let aug' = aug[i := aug ! maxRow, maxRow := aug ! i]
              in (aug', steps @ [(swap_title i maxRow, formatAugmented F aug')])
         else (aug, steps))"

text \<open>
  One round of the outer loop: after the swap, the test of the pivot and the elimination
  below it. \<open>Inl\<close> is the early return of the source (a pivot below the tolerance) with the
  records pushed so far.
\<close>

definition pivot_round ::
  "numfmt \<Rightarrow> nat \<Rightarrow> nat \<Rightarrow> real list list \<Rightarrow> (string \<times> string) list
     \<Rightarrow> (string \<times> string) list + real list list \<times> (string \<times> string) list" where
  "pivot_round F i n aug steps =
     (let swapped = swap_pivot F i n aug steps
      in if \<bar>fst swapped ! i ! i\<bar> < tolerance then Inl (snd swapped)
         else Inr (fold (eliminate_row F i n) [i + 1..<n] swapped))"

text \<open>The outer loop from pivot row \<open>i\<close> on; \<open>Inr\<close> is its normal end.\<close>

function forward_elimination ::
  "numfmt \<Rightarrow> nat \<Rightarrow> nat \<Rightarrow> real list list \<Rightarrow> (string \<times> string) list
     \<Rightarrow> (string \<times> string) list + real list list \<times> (string \<times> string) list" where
  "forward_elimination F i n aug steps =
     (if i < n then
        (case pivot_round F i n aug steps of
           Inl steps' \<Rightarrow> Inl steps'
         | Inr (aug', steps') \<Rightarrow> forward_elimination F (i + 1) n aug' steps')
      else Inr (aug, steps))"
  by pat_completeness auto
termination
  by (relation "measure (\<lambda>(F, i, n, aug, steps). n - i)") auto

declare forward_elimination.simps [simp del]

definition back_substitution :: "real list list \<Rightarrow> nat \<Rightarrow> real list" where
  "back_substitution aug n =
     fold (\<lambda>i x.
        let x1 = x[i := aug ! i ! n];
            x2 = fold (\<lambda>j y. y[i := y ! i - aug ! i ! j * y ! j]) [i + 1..<n] x1
        in x2[i := x2 ! i / aug ! i ! i])
      (rev [0..<n]) (replicate n 0)"

text \<open>The first record of the solver.\<close>

definition initial_record :: "numfmt \<Rightarrow> real list list \<Rightarrow> string \<times> string" where
  "initial_record F augmented = (''Matriz aumentada inicial:'', formatAugmented F augmented)"

text \<open>\<^verbatim>\<open>this.data.map((row, i) => [...row, b[i]])\<close>.\<close>

definition augment :: "real list list \<Rightarrow> real list \<Rightarrow> real list list" where
  "augment rws b = map (\<lambda>(row, i). row @ [b ! i]) (indexed rws)"

definition solve :: "numfmt \<Rightarrow> Matrix \<Rightarrow> real list \<Rightarrow> real list option \<times> (string \<times> string) list" where
  "solve F M b =
     (let n = rows M;
          augmented = augment (data M) b;
          steps = [initial_record F augmented]
      in case forward_elimination F 0 n augmented steps of
           Inl steps' \<Rightarrow> (None, steps')
         | Inr (aug, steps') \<Rightarrow>
             let steps1 = steps' @ [(''Matriz escalonada:'', formatAugmented F aug)];
                 x = back_substitution aug n;
                 steps2 = steps1 @ [solution_record F x]
             in (Some x, steps2))"

text \<open>
  The states of the outer loop: \<open>elimination_stage F n aug0 steps0 i aug steps\<close> says that
  the loop started with \<open>aug0\<close> and \<open>steps0\<close> arrives at the head of round \<open>i\<close> with
  \<open>aug\<close> and \<open>steps\<close>.
\<close>

inductive elimination_stage ::
  "numfmt \<Rightarrow> nat \<Rightarrow> real list list \<Rightarrow> (string \<times> string) list
     \<Rightarrow> nat \<Rightarrow> real list list \<Rightarrow> (string \<times> string) list \<Rightarrow> bool"
  for F n aug0 steps0 where
    stage_start: "elimination_stage F n aug0 steps0 0 aug0 steps0"
  | stage_next: "elimination_stage F n aug0 steps0 i aug steps \<Longrightarrow> i < n \<Longrightarrow>
       pivot_round F i n aug steps = Inr (aug', steps') \<Longrightarrow>
       elimination_stage F n aug0 steps0 (i + 1) aug' steps'"

subsection \<open>The nodal analysis: unknowns and conductances\<close>

definition groundNode :: string where
  "groundNode = ''gnd''"

text \<open>\<^verbatim>\<open>nodes\<close>, \<^verbatim>\<open>voltageSources\<close> and \<^verbatim>\<open>resistors\<close> of the source.\<close>

definition unknown_nodes :: "Circuit \<Rightarrow> Node list" where
  "unknown_nodes circuit = filter (\<lambda>n. n_id n \<noteq> groundNode) (circ_nodes circuit)"

text \<open>\<^verbatim>\<open>new Map(nodes.map((n, i) => [n.id, i]))\<close>: a later entry replaces an earlier one.\<close>

definition nodeMap :: "Circuit \<Rightarrow> string \<rightharpoonup> nat" where
  "nodeMap circuit =
     fold (\<lambda>(n, i) m. m(n_id n \<mapsto> i)) (indexed (unknown_nodes circuit)) Map.empty"

definition voltageSources :: "Circuit \<Rightarrow> Component list" where
  "voltageSources circuit = filter (\<lambda>c. c_type c = VoltageSource) (circ_components circuit)"

definition resistors :: "Circuit \<Rightarrow> Component list" where
  "resistors circuit = filter (\<lambda>c. c_type c = Resistor) (circ_components circuit)"

record Conductance = Component +
  cond_R :: real
  cond_G :: real

text \<open>For a resistor of 0 ohms JavaScript gives \<^verbatim>\<open>G = Infinity\<close>; here \<open>1 / 0 = 0\<close>.\<close>

definition conductances :: "Circuit \<Rightarrow> Conductance list" where
  "conductances circuit =
     map (\<lambda>r. let R = convertToOhms (c_value r) (c_unit r)
              in \<lparr>c_id = c_id r, c_type = c_type r, c_nodes = c_nodes r, c_value = c_value r,
                  c_unit = c_unit r, cond_R = R, cond_G = 1 / R\<rparr>)
         (resistors circuit)"

subsection \<open>Assembly of the system\<close>

text \<open>
  The index of another node inside a term: \<^verbatim>\<open>otherIdx + 1\<close> is \<^verbatim>\<open>NaN\<close> when the node
  is not in the map.
\<close>

definition idx_str :: "nat option \<Rightarrow> string" where
  "idx_str oi = (case oi of Some i \<Rightarrow> nat_str (i + 1) | None \<Rightarrow> ''NaN'')"

text \<open>
  One resistor at the equation of node \<open>idx\<close>. When the other terminal is not in the map,
  \<^verbatim>\<open>A.add(idx, undefined, -G)\<close> writes a property named \<^verbatim>\<open>undefined\<close> and changes no
  entry of the row.
\<close>

definition stamp_conductance ::
  "(string \<rightharpoonup> nat) \<Rightarrow> Node \<Rightarrow> nat \<Rightarrow> Conductance \<Rightarrow> Matrix \<times> string list \<Rightarrow> Matrix \<times> string list" where
  "stamp_conductance nmap node idx c st =
     (case st of (A, terms) \<Rightarrow>
        let nodeA = fst (c_nodes c); nodeB = snd (c_nodes c) in
        if nodeA = n_id node \<or> nodeB = n_id node then
          let otherNode = (if nodeA = n_id node then nodeB else nodeA) in
          if otherNode = groundNode then
            (add_entry A idx idx (cond_G c),
             terms @ [''G'' @ c_id c @ middot @ ''V'' @ nat_str (idx + 1)])
          else
            let otherIdx = nmap otherNode;
                A1 = add_entry A idx idx (cond_G c);
                A2 = (case otherIdx of Some j \<Rightarrow> add_entry A1 idx j (- cond_G c) | None \<Rightarrow> A1)
            in (A2, terms @ [''G'' @ c_id c @ middot @ ''(V'' @ nat_str (idx + 1) @ '' - V''
                              @ idx_str otherIdx @ '')''])
        else (A, terms))"

text \<open>One voltage source (with its index) at the equation of node \<open>idx\<close>.\<close>

definition stamp_source_at_node ::
  "nat \<Rightarrow> Node \<Rightarrow> nat \<Rightarrow> Component \<times> nat \<Rightarrow> Matrix \<times> string list \<Rightarrow> Matrix \<times> string list" where
  "stamp_source_at_node numNodes node idx vsi st =
     (case st of (A, terms) \<Rightarrow>
        let vs = fst vsi; vsIdx = snd vsi;
            posNode = fst (c_nodes vs); negNode = snd (c_nodes vs) in
        if posNode = n_id node then
          (set_entry A idx (numNodes + vsIdx) 1, terms @ [''+I'' @ nat_str (vsIdx + 1)])
        else if negNode = n_id node then
          (set_entry A idx (numNodes + vsIdx) (- 1), terms @ [''-I'' @ nat_str (vsIdx + 1)])
        else (A, terms))"

text \<open>The body of \<^verbatim>\<open>nodes.forEach\<close>: the equation of one unknown node.\<close>

definition node_equation ::
  "(string \<rightharpoonup> nat) \<Rightarrow> nat \<Rightarrow> Conductance list \<Rightarrow> Component list \<Rightarrow> Node \<times> nat
     \<Rightarrow> Matrix \<times> string list \<Rightarrow> Matrix \<times> string list" where
  "node_equation nmap numNodes conds vss ni st =
     (case st of (A, nodeEquations) \<Rightarrow>
        let node = fst ni; idx = snd ni;
            st1 = fold (stamp_conductance nmap node idx) conds (A, []);
            st2 = fold (stamp_source_at_node numNodes node idx) (indexed vss) st1
        in (fst st2,
            nodeEquations @ [''Nodo '' @ n_id node @ '': '' @ join '' '' (snd st2) @ '' = 0'']))"

text \<open>
  The index of a source terminal: \<^verbatim>\<open>-1\<close> for the ground, \<^verbatim>\<open>undefined\<close> for a name
  that is not in the map; both fail the test \<^verbatim>\<open>>= 0\<close> and are \<open>None\<close> here.
\<close>

definition terminal_index :: "(string \<rightharpoonup> nat) \<Rightarrow> string \<Rightarrow> nat option" where
  "terminal_index nmap nd = (if nd = groundNode then None else nmap nd)"

text \<open>The body of the second \<^verbatim>\<open>voltageSources.forEach\<close>: the equation of one source.\<close>

definition source_equation ::
  "numfmt \<Rightarrow> (string \<rightharpoonup> nat) \<Rightarrow> nat \<Rightarrow> Component \<times> nat
     \<Rightarrow> Matrix \<times> real list \<times> string list \<Rightarrow> Matrix \<times> real list \<times> string list" where
  "source_equation F nmap numNodes vsi st =
     (case st of (A, b, nodeEquations) \<Rightarrow>
        let vs = fst vsi; i = snd vsi;
            posIdx = terminal_index nmap (fst (c_nodes vs));
            negIdx = terminal_index nmap (snd (c_nodes vs));
            head = ''Fuente '' @ c_id vs @ '': '';
            (A', equation) =
              (case (posIdx, negIdx) of
                 (Some p, Some m) \<Rightarrow>
                   (set_entry (set_entry A (numNodes + i) p 1) (numNodes + i) m (- 1),
                    head @ ''V'' @ nat_str (p + 1) @ '' - V'' @ nat_str (m + 1) @ '' = ''
                      @ toStr F (c_value vs) @ '' V'')
               | (Some p, None) \<Rightarrow>
                   (set_entry A (numNodes + i) p 1,
                    head @ ''V'' @ nat_str (p + 1) @ '' = '' @ toStr F (c_value vs) @ '' V'')
               | (None, Some m) \<Rightarrow>
                   (set_entry A (numNodes + i) m (- 1),
                    head @ ''-V'' @ nat_str (m + 1) @ '' = '' @ toStr F (c_value vs) @ '' V'')
               | (None, None) \<Rightarrow> (A, head))
        in (A', b[numNodes + i := c_value vs], nodeEquations @ [equation]))"

text \<open>Step 3 of the source: the matrix \<open>A\<close>, the vector \<open>b\<close> and the equation texts.\<close>

definition assemble :: "numfmt \<Rightarrow> Circuit \<Rightarrow> Matrix \<times> real list \<times> string list" where
  "assemble F circuit =
     (let nodes = unknown_nodes circuit;
          nmap = nodeMap circuit;
          numNodes = length nodes;
          vss = voltageSources circuit;
          matrixSize = numNodes + length vss;
          A0 = new_Matrix matrixSize matrixSize 0;
          b0 = replicate matrixSize 0;
          st1 = fold (node_equation nmap numNodes (conductances circuit) vss) (indexed nodes) (A0, [])
      in fold (source_equation F nmap numNodes) (indexed vss) (fst st1, b0, snd st1))"

subsection \<open>The records of the assembly (steps 1 to 4)\<close>

definition step_identification :: "Circuit \<Rightarrow> Step" where
  "step_identification circuit =
     \<lparr>title = ''1. IDENTIFICACI'' @ O_acute @ ''N Y AN'' @ A_acute @ ''LISIS DEL CIRCUITO'',
      description =
        ''M'' @ e_acute @ ''todo: An'' @ a_acute @ ''lisis Nodal Modificado (MNA)'' @ nl
        @ ''Nodos totales: '' @ nat_str (length (circ_nodes circuit)) @ nl
        @ ''Nodos inc'' @ o_acute @ ''gnita: '' @ nat_str (length (unknown_nodes circuit))
        @ '' (excluyendo tierra)'' @ nl
        @ ''Fuentes de voltaje: '' @ nat_str (length (voltageSources circuit)) @ nl
        @ ''Resistencias: '' @ nat_str (length (resistors circuit)) @ nl @ nl
        @ ''Variables a resolver:'' @ nl
        @ join nl (map (\<lambda>(n, i). ''  V'' @ nat_str (i + 1) @ '' (voltaje en nodo '' @ n_id n @ '')'')
                     (indexed (unknown_nodes circuit))) @ nl
        @ join nl (map (\<lambda>(vs, i). ''  I'' @ nat_str (i + 1) @ '' (corriente en '' @ c_id vs @ '')'')
                     (indexed (voltageSources circuit))),
      equations = Some [], matrix = None, result = None\<rparr>"

definition step_conductances :: "numfmt \<Rightarrow> Circuit \<Rightarrow> Step" where
  "step_conductances F circuit =
     \<lparr>title = ''2. CONVERSI'' @ O_acute @ ''N A CONDUCTANCIAS'',
      description = ''Convertimos las resistencias a conductancias (G = 1/R):'',
      equations = Some (map (\<lambda>c. c_id c @ '': R = '' @ toStr F (c_value c) @ '' '' @ c_unit c
                                 @ '' = '' @ toFixed F (cond_R c) 4 @ '' '' @ Omega @ ''  '' @ rarrow
                                 @ ''  G = '' @ toFixed F (cond_G c) 8 @ '' S'')
                         (conductances circuit)),
      matrix = None, result = None\<rparr>"

definition step_equations :: "string list \<Rightarrow> Step" where
  "step_equations nodeEquations =
     \<lparr>title = ''3. PLANTEAMIENTO DE ECUACIONES NODALES'',
      description = ''Aplicando la Ley de Corrientes de Kirchhoff (KCL):'',
      equations = Some nodeEquations, matrix = None, result = None\<rparr>"

definition matrixDisplay :: "numfmt \<Rightarrow> Matrix \<Rightarrow> real list \<Rightarrow> string list" where
  "matrixDisplay F A b =
     map (\<lambda>(row, i). ''['' @ join '' '' (map (\<lambda>v. padStart 10 (toFixed F v 4)) row)
                      @ ''] [x'' @ nat_str (i + 1) @ ''] = ['' @ toFixed F (b ! i) 4 @ '']'')
         (indexed (toArray A))"

definition step_matrix :: "numfmt \<Rightarrow> Matrix \<Rightarrow> real list \<Rightarrow> Step" where
  "step_matrix F A b =
     \<lparr>title = ''4. SISTEMA MATRICIAL [A][x] = [b]'',
      description = ''Representaci'' @ o_acute @ ''n matricial del sistema de ecuaciones:'',
      equations = None, matrix = Some [matrixDisplay F A b], result = None\<rparr>"

text \<open>The list \<^verbatim>\<open>steps\<close> at the call of \<^verbatim>\<open>A.solve(b)\<close>.\<close>

definition assembly_steps :: "numfmt \<Rightarrow> Circuit \<Rightarrow> Step list" where
  "assembly_steps F circuit =
     (case assemble F circuit of (A, b, nodeEquations) \<Rightarrow>
        [step_identification circuit, step_conductances F circuit,
         step_equations nodeEquations, step_matrix F A b])"

subsection \<open>Interpretation of the solution (steps 5 to 8)\<close>

definition step_elimination :: "(string \<times> string) list \<Rightarrow> Step" where
  "step_elimination solutionSteps =
     \<lparr>title = ''5. RESOLUCI'' @ O_acute @ ''N POR ELIMINACI'' @ O_acute @ ''N GAUSSIANA'',
      description = ''Aplicando eliminaci'' @ o_acute @ ''n Gaussiana con pivoteo parcial:'',
      equations = Some (map (\<lambda>(t, content). t @ nl @ content) solutionSteps),
      matrix = None, result = None\<rparr>"

text \<open>The map \<^verbatim>\<open>voltages\<close>: the ground first, then every unknown node in order.\<close>

definition node_voltages :: "Node list \<Rightarrow> real list \<Rightarrow> string \<rightharpoonup> real" where
  "node_voltages nodes solution =
     fold (\<lambda>(n, i) m. m(n_id n \<mapsto> solution ! i)) (indexed nodes) [groundNode \<mapsto> 0]"

definition step_interpretation :: "numfmt \<Rightarrow> Circuit \<Rightarrow> real list \<Rightarrow> Step" where
  "step_interpretation F circuit solution =
     (let nodes = unknown_nodes circuit; numNodes = length nodes;
          vss = voltageSources circuit;
          voltageResults =
            [''Voltaje en tierra (referencia): 0.0000 V'']
            @ map (\<lambda>(n, i). ''Voltaje en '' @ n_id n @ '': V'' @ nat_str (i + 1) @ '' = ''
                             @ toFixed F (solution ! i) 4 @ '' V'') (indexed nodes);
          voltageResults' =
            (if length vss > 0 then
               voltageResults @ [nl @ ''Corrientes en fuentes de voltaje:'']
               @ map (\<lambda>(vs, i). ''Corriente en '' @ c_id vs @ '': I'' @ nat_str (i + 1) @ '' = ''
                                 @ toFixed F (solution ! (numNodes + i)) 4 @ '' A = ''
                                 @ toFixed F (solution ! (numNodes + i) * 1000) 4 @ '' mA'')
                     (indexed vss)
             else voltageResults)
      in \<lparr>title = ''6. INTERPRETACI'' @ O_acute @ ''N DE RESULTADOS'',
          description = ''Valores de voltajes y corrientes obtenidos:'',
          equations = Some voltageResults', matrix = None, result = None\<rparr>)"

record ComponentResult = Component +
  voltage :: real
  current :: real
  r_power :: real

text \<open>\<^verbatim>\<open>Array.prototype.findIndex\<close>; \<open>None\<close> is the result \<^verbatim>\<open>-1\<close>.\<close>

fun findIndex :: "('a \<Rightarrow> bool) \<Rightarrow> 'a list \<Rightarrow> nat option" where
  "findIndex P [] = None"
| "findIndex P (x # xs) = (if P x then Some 0 else map_option Suc (findIndex P xs))"

text \<open>
  \<^verbatim>\<open>voltages.get(n)!\<close>. For a terminal that is neither the ground nor a node of the
  circuit JavaScript reads \<^verbatim>\<open>undefined\<close> and the voltage of the component is NaN,
  which a real cannot express; the model reads 0 there, and the statements below that
  depend on this value are about circuits whose terminals are all declared. The component
  results over JavaScript numbers, further down, read \<^verbatim>\<open>undefined\<close>.
\<close>

definition get_voltage :: "(string \<rightharpoonup> real) \<Rightarrow> string \<Rightarrow> real" where
  "get_voltage voltages n = (case voltages n of Some v \<Rightarrow> v | None \<Rightarrow> 0)"

text \<open>For a resistor of 0 ohms JavaScript gives an infinite or NaN current; here \<open>v / 0 = 0\<close>.\<close>

definition component_result ::
  "Circuit \<Rightarrow> (string \<rightharpoonup> real) \<Rightarrow> real list \<Rightarrow> Component \<Rightarrow> ComponentResult" where
  "component_result circuit voltages solution cp =
     (let vA = get_voltage voltages (fst (c_nodes cp));
          vB = get_voltage voltages (snd (c_nodes cp));
          v = vA - vB;
          i = (if c_type cp = Resistor then v / convertToOhms (c_value cp) (c_unit cp)
               else if c_type cp = VoltageSource then
                 (case findIndex (\<lambda>vs. c_id vs = c_id cp) (voltageSources circuit) of
                    Some vsIdx \<Rightarrow> solution ! (length (unknown_nodes circuit) + vsIdx)
                  | None \<Rightarrow> 0)
               else 0)
      in \<lparr>c_id = c_id cp, c_type = c_type cp, c_nodes = c_nodes cp,
          c_value = c_value cp, c_unit = c_unit cp,
          voltage = v, current = i, r_power = \<bar>v * i\<bar>\<rparr>)"

definition componentResults ::
  "Circuit \<Rightarrow> (string \<rightharpoonup> real) \<Rightarrow> real list \<Rightarrow> ComponentResult list" where
  "componentResults circuit voltages solution =
     map (component_result circuit voltages solution) (circ_components circuit)"

definition componentCalcs :: "numfmt \<Rightarrow> (string \<rightharpoonup> real) \<Rightarrow> ComponentResult list \<Rightarrow> string list" where
  "componentCalcs F voltages results =
     map (\<lambda>cp.
        if c_type cp = Resistor then
          let nA = fst (c_nodes cp); nB = snd (c_nodes cp);
              vA = get_voltage voltages nA; vB = get_voltage voltages nB;
              R = convertToOhms (c_value cp) (c_unit cp)
          in c_id cp @ '' ('' @ nA @ '' '' @ rarrow @ '' '' @ nB @ ''):'' @ nl
             @ ''  V = V('' @ nA @ '') - V('' @ nB @ '') = '' @ toFixed F vA 4 @ '' - ''
             @ toFixed F vB 4 @ '' = '' @ toFixed F (voltage cp) 4 @ '' V'' @ nl
             @ ''  I = V/R = '' @ toFixed F (voltage cp) 4 @ '' / '' @ toFixed F R 4 @ '' = ''
             @ toFixed F (current cp) 6 @ '' A = '' @ toFixed F (current cp * 1000) 4
             @ '' mA'' @ nl
             @ ''  P = V '' @ times_sign @ '' I = '' @ toFixed F (voltage cp) 4 @ '' ''
             @ times_sign @ '' '' @ toFixed F (current cp) 6 @ '' = ''
             @ toFixed F (r_power cp) 6 @ '' W''
        else
          c_id cp @ '':'' @ nl
          @ ''  V = '' @ toFixed F (voltage cp) 4 @ '' V'' @ nl
          @ ''  I = '' @ toFixed F (current cp) 6 @ '' A = ''
          @ toFixed F (current cp * 1000) 4 @ '' mA'' @ nl
          @ ''  P = '' @ toFixed F (r_power cp) 6 @ '' W'') results"

definition step_components :: "numfmt \<Rightarrow> (string \<rightharpoonup> real) \<Rightarrow> ComponentResult list \<Rightarrow> Step" where
  "step_components F voltages results =
     \<lparr>title = ''7. C'' @ A_acute @ ''LCULO DE CORRIENTES Y POTENCIAS'',
      description = ''Usando la Ley de Ohm (I = V/R) y P = V '' @ times_sign @ '' I:'',
      equations = Some (componentCalcs F voltages results), matrix = None, result = None\<rparr>"

text \<open>\<^verbatim>\<open>.filter(c => c.type === t).reduce((sum, c) => sum + c.power, 0)\<close>.\<close>

definition total_power :: "comp_type \<Rightarrow> ComponentResult list \<Rightarrow> real" where
  "total_power t results = foldl (\<lambda>s c. s + r_power c) 0 (filter (\<lambda>c. c_type c = t) results)"

definition totalPowerDissipated :: "ComponentResult list \<Rightarrow> real" where
  "totalPowerDissipated results = total_power Resistor results"

definition totalPowerSupplied :: "ComponentResult list \<Rightarrow> real" where
  "totalPowerSupplied results = total_power VoltageSource results"

definition balance_verified :: string where
  "balance_verified = check_mark @ '' Balance de energ'' @ i_acute @ ''a verificado''"

definition balance_review :: string where
  "balance_review = warning_sign @ '' Revisar balance de energ'' @ i_acute @ ''a''"

text \<open>The last line of the verification: the mark of the energy balance.\<close>

definition balance_marker :: "ComponentResult list \<Rightarrow> string" where
  "balance_marker results =
     (if totalPowerSupplied results - totalPowerDissipated results < 1 / 1000
      then balance_verified else balance_review)"

definition verificationEquations :: "numfmt \<Rightarrow> ComponentResult list \<Rightarrow> string list" where
  "verificationEquations F results =
     [''Potencia total disipada en resistencias:'']
     @ map (\<lambda>c. ''  '' @ c_id c @ '': '' @ toFixed F (r_power c) 6 @ '' W'')
           (filter (\<lambda>c. c_type c = Resistor) results)
     @ [''  TOTAL DISIPADO: '' @ toFixed F (totalPowerDissipated results) 6 @ '' W'',
        [],
        ''Potencia total suministrada por fuentes:'']
     @ map (\<lambda>c. ''  '' @ c_id c @ '': '' @ toFixed F (r_power c) 6 @ '' W'')
           (filter (\<lambda>c. c_type c = VoltageSource) results)
     @ [''  TOTAL SUMINISTRADO: '' @ toFixed F (totalPowerSupplied results) 6 @ '' W'',
        [],
        ''Diferencia: ''
          @ toFixed F \<bar>totalPowerSupplied results - totalPowerDissipated results\<bar> 6 @ '' W'',
        balance_marker results]"

definition step_verification :: "numfmt \<Rightarrow> ComponentResult list \<Rightarrow> Step" where
  "step_verification F results =
     \<lparr>title = ''8. VERIFICACI'' @ O_acute @ ''N DE RESULTADOS'',
      description = ''Verificaci'' @ o_acute @ ''n del balance de energ'' @ i_acute
                    @ ''a (Conservaci'' @ o_acute @ ''n de la energ'' @ i_acute @ ''a):'',
      equations = Some (verificationEquations F results), matrix = None, result = None\<rparr>"

subsection \<open>The analysis\<close>

text \<open>
  The two shapes of the returned object: \<^verbatim>\<open>{ error, steps }\<close> and
  \<^verbatim>\<open>{ voltages, componentResults, steps, method }\<close>.
\<close>

datatype analysis_result =
    Failure string "Step list"
  | Success "string \<rightharpoonup> real" "ComponentResult list" "Step list" string

definition error_message :: string where
  "error_message = ''El sistema no tiene soluci'' @ o_acute @ ''n '' @ u_acute @ ''nica''"

definition analyzeNodalMethod :: "numfmt \<Rightarrow> Circuit \<Rightarrow> analysis_result" where
  "analyzeNodalMethod F circuit =
     (case assemble F circuit of (A, b, nodeEquations) \<Rightarrow>
        let steps = assembly_steps F circuit in
        (case solve F A b of
           (None, solutionSteps) \<Rightarrow> Failure error_message steps
         | (Some solution, solutionSteps) \<Rightarrow>
             let voltages = node_voltages (unknown_nodes circuit) solution;
                 results = componentResults circuit voltages solution
             in Success voltages results
                  (steps @ [step_elimination solutionSteps,
                            step_interpretation F circuit solution,
                            step_components F voltages results,
                            step_verification F results])
                  ''Nodal''))"

text \<open>Projections of the returned object.\<close>

fun result_steps :: "analysis_result \<Rightarrow> Step list" where
  "result_steps (Failure e st) = st"
| "result_steps (Success v rs st m) = st"

fun succeeded :: "analysis_result \<Rightarrow> bool" where
  "succeeded (Failure e st) = False"
| "succeeded (Success v rs st m) = True"

fun result_voltages :: "analysis_result \<Rightarrow> (string \<rightharpoonup> real) option" where
  "result_voltages (Failure e st) = None"
| "result_voltages (Success v rs st m) = Some v"

fun result_components :: "analysis_result \<Rightarrow> ComponentResult list option" where
  "result_components (Failure e st) = None"
| "result_components (Success v rs st m) = Some rs"

subsection \<open>The solver on a store of arrays\<close>

text \<open>
  Whether \<^verbatim>\<open>solve\<close> changes the matrix of its caller depends on which arrays the
  elimination writes to. Here the arrays live in a store: an address is an index into the
  store, a cell is an array of numbers or an array of references to arrays, and a new array
  is appended to the store. The matrix object holds the address of its outer array.
\<close>

datatype cell = Numbers "real list" | Rows "nat list"

type_synonym store = "cell list"

definition numbers_at :: "store \<Rightarrow> nat \<Rightarrow> real list" where
  "numbers_at h a = (case h ! a of Numbers xs \<Rightarrow> xs | Rows rs \<Rightarrow> [])"

definition rows_at :: "store \<Rightarrow> nat \<Rightarrow> nat list" where
  "rows_at h a = (case h ! a of Rows rs \<Rightarrow> rs | Numbers xs \<Rightarrow> [])"

definition alloc :: "store \<Rightarrow> cell \<Rightarrow> store \<times> nat" where
  "alloc h c = (h @ [c], length h)"

record MatrixRef =
  ref_data :: nat
  ref_rows :: nat
  ref_cols :: nat

text \<open>The array of arrays at an address, read as a value; \<^verbatim>\<open>a[r][c]\<close> and \<^verbatim>\<open>a[r][c] = v\<close>.\<close>

definition read_rows :: "store \<Rightarrow> nat \<Rightarrow> real list list" where
  "read_rows h a = map (numbers_at h) (rows_at h a)"

definition read_entry :: "store \<Rightarrow> nat \<Rightarrow> nat \<Rightarrow> nat \<Rightarrow> real" where
  "read_entry h a r c = numbers_at h (rows_at h a ! r) ! c"

definition write_entry :: "store \<Rightarrow> nat \<Rightarrow> nat \<Rightarrow> nat \<Rightarrow> real \<Rightarrow> store" where
  "write_entry h a r c v =
     (let ra = rows_at h a ! r in h[ra := Numbers ((numbers_at h ra)[c := v])])"

text \<open>
  \<^verbatim>\<open>this.data.map((row, i) => [...row, b[i]])\<close>: a new array for every row, then a new
  outer array.
\<close>

definition copy_augmented :: "store \<Rightarrow> nat \<Rightarrow> real list \<Rightarrow> store \<times> nat" where
  "copy_augmented h d b =
     (let st = fold (\<lambda>(r, i) (h', acc). (h' @ [Numbers (numbers_at h' r @ [b ! i])], acc @ [length h']))
                 (indexed (rows_at h d)) (h, [])
      in alloc (fst st) (Rows (snd st)))"

definition store_eliminate_row ::
  "numfmt \<Rightarrow> nat \<Rightarrow> nat \<Rightarrow> nat \<Rightarrow> nat \<Rightarrow> store \<times> (string \<times> string) list
     \<Rightarrow> store \<times> (string \<times> string) list" where
  "store_eliminate_row F aug i n k st =
     (case st of (h, steps) \<Rightarrow>
        let factor = read_entry h aug k i / read_entry h aug i i in
        if \<bar>factor\<bar> > tolerance then
          let h' = fold (\<lambda>j g. write_entry g aug k j (read_entry g aug k j - factor * read_entry g aug i j))
                     [i..<n + 1] h
          in (h', steps @ [(eliminate_title F i k factor, formatAugmented F (read_rows h' aug))])
        else (h, steps))"

definition store_pivot_round ::
  "numfmt \<Rightarrow> nat \<Rightarrow> nat \<Rightarrow> nat \<Rightarrow> store \<Rightarrow> (string \<times> string) list
     \<Rightarrow> (string \<times> string) list \<times> store + store \<times> (string \<times> string) list" where
  "store_pivot_round F aug i n h steps =
     (let maxRow = find_pivot (read_rows h aug) i n;
          swapped = (if maxRow \<noteq> i
                     then let rs = rows_at h aug;
                              h' = h[aug := Rows (rs[i := rs ! maxRow, maxRow := rs ! i])]
                          in (h', steps @ [(swap_title i maxRow, formatAugmented F (read_rows h' aug))])
                     else (h, steps))
      in if \<bar>read_entry (fst swapped) aug i i\<bar> < tolerance then Inl (snd swapped, fst swapped)
         else Inr (fold (store_eliminate_row F aug i n) [i + 1..<n] swapped))"

function store_forward_elimination ::
  "numfmt \<Rightarrow> nat \<Rightarrow> nat \<Rightarrow> nat \<Rightarrow> store \<Rightarrow> (string \<times> string) list
     \<Rightarrow> (string \<times> string) list \<times> store + store \<times> (string \<times> string) list" where
  "store_forward_elimination F aug i n h steps =
     (if i < n then
        (case store_pivot_round F aug i n h steps of
           Inl failed \<Rightarrow> Inl failed
         | Inr (h', steps') \<Rightarrow> store_forward_elimination F aug (i + 1) n h' steps')
      else Inr (h, steps))"
  by pat_completeness auto
termination
  by (relation "measure (\<lambda>(F, aug, i, n, h, steps). n - i)") auto

declare store_forward_elimination.simps [simp del]

text \<open>The method \<^verbatim>\<open>solve\<close> of a matrix object: its result and the store it leaves.\<close>

definition store_solve ::
  "numfmt \<Rightarrow> MatrixRef \<Rightarrow> real list \<Rightarrow> store
     \<Rightarrow> (real list option \<times> (string \<times> string) list) \<times> store" where
  "store_solve F M b h =
     (let n = ref_rows M;
          (h0, aug) = copy_augmented h (ref_data M) b;
          steps = [initial_record F (read_rows h0 aug)]
      in case store_forward_elimination F aug 0 n h0 steps of
           Inl (steps', h') \<Rightarrow> ((None, steps'), h')
         | Inr (h', steps') \<Rightarrow>
             let steps1 = steps' @ [(''Matriz escalonada:'', formatAugmented F (read_rows h' aug))];
                 x = back_substitution (read_rows h' aug) n;
                 steps2 = steps1 @ [solution_record F x]
             in ((Some x, steps2), h'))"

text \<open>
  A matrix object as its constructor leaves it: an outer array of \<^verbatim>\<open>rows\<close> references,
  each to an array of \<^verbatim>\<open>cols\<close> numbers, all of them in the store.
\<close>

definition matrix_in_store :: "store \<Rightarrow> MatrixRef \<Rightarrow> bool" where
  "matrix_in_store h M \<longleftrightarrow>
     ref_data M < length h \<and>
     (case h ! ref_data M of
        Numbers xs \<Rightarrow> False
      | Rows rs \<Rightarrow> length rs = ref_rows M \<and>
          list_all (\<lambda>r. r < length h \<and>
                        (case h ! r of Numbers xs \<Rightarrow> length xs = ref_cols M | Rows rs' \<Rightarrow> False)) rs)"

text \<open>
  The augmented copy at address \<open>aug\<close> lies above the first \<open>L\<close> cells of the store: its
  outer array and the \<open>n\<close> arrays it refers to are at addresses from \<open>L\<close> on, and no row
  is the outer array itself.
\<close>

definition copy_above :: "nat \<Rightarrow> nat \<Rightarrow> store \<Rightarrow> nat \<Rightarrow> bool" where
  "copy_above L n h aug \<longleftrightarrow>
     L \<le> aug \<and> aug < length h \<and>
     (case h ! aug of
        Numbers xs \<Rightarrow> False
      | Rows rs \<Rightarrow> length rs = n \<and> aug \<notin> set rs \<and> list_all (\<lambda>r. L \<le> r \<and> r < length h) rs)"

text \<open>
  The augmented copy at \<open>aug\<close> lies above \<open>L\<close>, its rows are different arrays, and read as
  a value it is \<open>A\<close>.
\<close>

definition copy_holds :: "nat \<Rightarrow> nat \<Rightarrow> store \<Rightarrow> nat \<Rightarrow> real list list \<Rightarrow> bool" where
  "copy_holds L n h aug A \<longleftrightarrow>
     copy_above L n h aug \<and> distinct (rows_at h aug) \<and> read_rows h aug = A"

text \<open>The matrix of a matrix object, read as a value.\<close>

definition matrix_of :: "store \<Rightarrow> MatrixRef \<Rightarrow> Matrix" where
  "matrix_of h M = \<lparr>data = read_rows h (ref_data M), rows = ref_rows M, cols = ref_cols M\<rparr>"

subsection \<open>The analysis over JavaScript numbers\<close>

text \<open>
  The power of a current source is \<^verbatim>\<open>Math.abs(voltage * 0)\<close>, which is 0 for a finite
  voltage and NaN for an infinite or NaN one, and a real expresses neither. This subsection
  repeats the numbers of the analysis (the conductances, the assembly of \<open>A\<close> and \<open>b\<close>,
  the solver, the potentials, the component results and the power totals) over JavaScript
  numbers with their special values; the records and texts of the derivation are those of
  the model above and are left out here, except for the one text that can throw.

  A number is a finite number, one of the two infinities or NaN. A finite number is a real
  and the arithmetic on finite numbers is exact, as above. The special values follow
  IEEE 754: NaN propagates through every operation and fails every comparison; \<open>x / 0\<close>
  is an infinity for \<open>x \<noteq> 0\<close> and NaN for \<open>x = 0\<close>; the difference of two equal
  infinities, the product of 0 and an infinity and the quotient of two infinities are NaN.
  The two zeros of IEEE are one number here, which divides like \<^verbatim>\<open>+0\<close>: a component
  value \<^verbatim>\<open>-0\<close> is outside the model.
\<close>

datatype jsnum = Number real | PlusInfinity | MinusInfinity | NaN

fun js_neg :: "jsnum \<Rightarrow> jsnum" where
  "js_neg (Number x) = Number (- x)"
| "js_neg PlusInfinity = MinusInfinity"
| "js_neg MinusInfinity = PlusInfinity"
| "js_neg NaN = NaN"

text \<open>\<^verbatim>\<open>Math.abs\<close>.\<close>

fun js_abs :: "jsnum \<Rightarrow> jsnum" where
  "js_abs (Number x) = Number \<bar>x\<bar>"
| "js_abs PlusInfinity = PlusInfinity"
| "js_abs MinusInfinity = PlusInfinity"
| "js_abs NaN = NaN"

fun js_add :: "jsnum \<Rightarrow> jsnum \<Rightarrow> jsnum" where
  "js_add (Number x) (Number y) = Number (x + y)"
| "js_add (Number x) PlusInfinity = PlusInfinity"
| "js_add (Number x) MinusInfinity = MinusInfinity"
| "js_add PlusInfinity (Number y) = PlusInfinity"
| "js_add MinusInfinity (Number y) = MinusInfinity"
| "js_add PlusInfinity PlusInfinity = PlusInfinity"
| "js_add MinusInfinity MinusInfinity = MinusInfinity"
| "js_add _ _ = NaN"

definition js_sub :: "jsnum \<Rightarrow> jsnum \<Rightarrow> jsnum" where
  "js_sub a b = js_add a (js_neg b)"

fun js_mul :: "jsnum \<Rightarrow> jsnum \<Rightarrow> jsnum" where
  "js_mul (Number x) (Number y) = Number (x * y)"
| "js_mul (Number x) PlusInfinity =
     (if x = 0 then NaN else if 0 < x then PlusInfinity else MinusInfinity)"
| "js_mul (Number x) MinusInfinity =
     (if x = 0 then NaN else if 0 < x then MinusInfinity else PlusInfinity)"
| "js_mul PlusInfinity (Number y) =
     (if y = 0 then NaN else if 0 < y then PlusInfinity else MinusInfinity)"
| "js_mul MinusInfinity (Number y) =
     (if y = 0 then NaN else if 0 < y then MinusInfinity else PlusInfinity)"
| "js_mul PlusInfinity PlusInfinity = PlusInfinity"
| "js_mul PlusInfinity MinusInfinity = MinusInfinity"
| "js_mul MinusInfinity PlusInfinity = MinusInfinity"
| "js_mul MinusInfinity MinusInfinity = PlusInfinity"
| "js_mul _ _ = NaN"

fun js_div :: "jsnum \<Rightarrow> jsnum \<Rightarrow> jsnum" where
  "js_div (Number x) (Number y) =
     (if y \<noteq> 0 then Number (x / y)
      else if x = 0 then NaN else if 0 < x then PlusInfinity else MinusInfinity)"
| "js_div (Number x) PlusInfinity = Number 0"
| "js_div (Number x) MinusInfinity = Number 0"
| "js_div PlusInfinity (Number y) = (if 0 \<le> y then PlusInfinity else MinusInfinity)"
| "js_div MinusInfinity (Number y) = (if 0 \<le> y then MinusInfinity else PlusInfinity)"
| "js_div _ _ = NaN"

text \<open>The comparisons \<^verbatim>\<open><\<close> and \<^verbatim>\<open>>\<close>: false when an operand is NaN.\<close>

fun js_less :: "jsnum \<Rightarrow> jsnum \<Rightarrow> bool" where
  "js_less (Number x) (Number y) = (x < y)"
| "js_less (Number x) PlusInfinity = True"
| "js_less MinusInfinity (Number y) = True"
| "js_less MinusInfinity PlusInfinity = True"
| "js_less _ _ = False"

definition js_greater :: "jsnum \<Rightarrow> jsnum \<Rightarrow> bool" where
  "js_greater a b = js_less b a"

fun is_finite :: "jsnum \<Rightarrow> bool" where
  "is_finite (Number x) = True"
| "is_finite _ = False"

text \<open>
  \<^verbatim>\<open>value * (conversions[unit] || 1)\<close>. A unit that is the name of a member of
  \<^verbatim>\<open>Object.prototype\<close> reads that member, a function or an object, which is not
  replaced by 1 and makes the product NaN.
\<close>

definition object_prototype_members :: "string list" where
  "object_prototype_members =
     [''constructor'', ''__defineGetter__'', ''__defineSetter__'', ''hasOwnProperty'',
      ''__lookupGetter__'', ''__lookupSetter__'', ''isPrototypeOf'', ''propertyIsEnumerable'',
      ''toString'', ''valueOf'', ''__proto__'', ''toLocaleString'']"

definition js_convertToOhms :: "real \<Rightarrow> string \<Rightarrow> jsnum" where
  "js_convertToOhms v u =
     (if u \<in> set object_prototype_members then NaN else Number (convertToOhms v u))"

text \<open>The class \<^verbatim>\<open>Matrix\<close> and \<^verbatim>\<open>conductances\<close>; \<^verbatim>\<open>1 / R\<close> is Infinity for 0 ohms.\<close>

record JsMatrix =
  js_data :: "jsnum list list"
  js_rows :: nat
  js_cols :: nat

definition js_new_Matrix :: "nat \<Rightarrow> nat \<Rightarrow> jsnum \<Rightarrow> JsMatrix" where
  "js_new_Matrix r c initialValue =
     \<lparr>js_data = replicate r (replicate c initialValue), js_rows = r, js_cols = c\<rparr>"

definition js_set_entry :: "JsMatrix \<Rightarrow> nat \<Rightarrow> nat \<Rightarrow> jsnum \<Rightarrow> JsMatrix" where
  "js_set_entry M row col v = M\<lparr>js_data := (js_data M)[row := (js_data M ! row)[col := v]]\<rparr>"

definition js_add_entry :: "JsMatrix \<Rightarrow> nat \<Rightarrow> nat \<Rightarrow> jsnum \<Rightarrow> JsMatrix" where
  "js_add_entry M row col v =
     M\<lparr>js_data := (js_data M)[row := (js_data M ! row)[col := js_add (js_data M ! row ! col) v]]\<rparr>"

record JsConductance = Component +
  js_cond_R :: jsnum
  js_cond_G :: jsnum

definition js_conductances :: "Circuit \<Rightarrow> JsConductance list" where
  "js_conductances circuit =
     map (\<lambda>r. let R = js_convertToOhms (c_value r) (c_unit r)
              in \<lparr>c_id = c_id r, c_type = c_type r, c_nodes = c_nodes r, c_value = c_value r,
                  c_unit = c_unit r, js_cond_R = R, js_cond_G = js_div (Number 1) R\<rparr>)
         (resistors circuit)"

text \<open>The assembly of \<open>A\<close> and \<open>b\<close> (step 3), as above without the equation texts.\<close>

definition js_stamp_conductance ::
  "(string \<rightharpoonup> nat) \<Rightarrow> Node \<Rightarrow> nat \<Rightarrow> JsConductance \<Rightarrow> JsMatrix \<Rightarrow> JsMatrix" where
  "js_stamp_conductance nmap node idx c A =
     (let nodeA = fst (c_nodes c); nodeB = snd (c_nodes c) in
      if nodeA = n_id node \<or> nodeB = n_id node then
        let otherNode = (if nodeA = n_id node then nodeB else nodeA) in
        if otherNode = groundNode then js_add_entry A idx idx (js_cond_G c)
        else
          let otherIdx = nmap otherNode;
              A1 = js_add_entry A idx idx (js_cond_G c)
          in (case otherIdx of Some j \<Rightarrow> js_add_entry A1 idx j (js_neg (js_cond_G c)) | None \<Rightarrow> A1)
      else A)"

definition js_stamp_source_at_node ::
  "nat \<Rightarrow> Node \<Rightarrow> nat \<Rightarrow> Component \<times> nat \<Rightarrow> JsMatrix \<Rightarrow> JsMatrix" where
  "js_stamp_source_at_node numNodes node idx vsi A =
     (let vs = fst vsi; vsIdx = snd vsi;
          posNode = fst (c_nodes vs); negNode = snd (c_nodes vs) in
      if posNode = n_id node then js_set_entry A idx (numNodes + vsIdx) (Number 1)
      else if negNode = n_id node then js_set_entry A idx (numNodes + vsIdx) (Number (- 1))
      else A)"

definition js_node_equation ::
  "(string \<rightharpoonup> nat) \<Rightarrow> nat \<Rightarrow> JsConductance list \<Rightarrow> Component list \<Rightarrow> Node \<times> nat
     \<Rightarrow> JsMatrix \<Rightarrow> JsMatrix" where
  "js_node_equation nmap numNodes conds vss ni A =
     (let node = fst ni; idx = snd ni;
          A1 = fold (js_stamp_conductance nmap node idx) conds A
      in fold (js_stamp_source_at_node numNodes node idx) (indexed vss) A1)"

definition js_source_equation ::
  "(string \<rightharpoonup> nat) \<Rightarrow> nat \<Rightarrow> Component \<times> nat \<Rightarrow> JsMatrix \<times> jsnum list
     \<Rightarrow> JsMatrix \<times> jsnum list" where
  "js_source_equation nmap numNodes vsi st =
     (case st of (A, b) \<Rightarrow>
        let vs = fst vsi; i = snd vsi;
            posIdx = terminal_index nmap (fst (c_nodes vs));
            negIdx = terminal_index nmap (snd (c_nodes vs));
            A' =
              (case (posIdx, negIdx) of
                 (Some p, Some m) \<Rightarrow>
                   js_set_entry (js_set_entry A (numNodes + i) p (Number 1))
                     (numNodes + i) m (Number (- 1))
               | (Some p, None) \<Rightarrow> js_set_entry A (numNodes + i) p (Number 1)
               | (None, Some m) \<Rightarrow> js_set_entry A (numNodes + i) m (Number (- 1))
               | (None, None) \<Rightarrow> A)
        in (A', b[numNodes + i := Number (c_value vs)]))"

definition js_assemble :: "Circuit \<Rightarrow> JsMatrix \<times> jsnum list" where
  "js_assemble circuit =
     (let nodes = unknown_nodes circuit;
          nmap = nodeMap circuit;
          numNodes = length nodes;
          vss = voltageSources circuit;
          matrixSize = numNodes + length vss;
          A0 = js_new_Matrix matrixSize matrixSize (Number 0);
          b0 = replicate matrixSize (Number 0);
          A1 = fold (js_node_equation nmap numNodes (js_conductances circuit) vss)
                 (indexed nodes) A0
      in fold (js_source_equation nmap numNodes) (indexed vss) (A1, b0))"

text \<open>
  \<^verbatim>\<open>solve\<close>, as above without the records. A pivot that is an infinity or NaN passes
  the test \<^verbatim>\<open>Math.abs(pivot) < 1e-10\<close>, and a factor that is NaN fails the test
  \<^verbatim>\<open>Math.abs(factor) > 1e-10\<close>, so its row is left as it is. \<open>None\<close> is the early return.
\<close>

definition js_find_pivot :: "jsnum list list \<Rightarrow> nat \<Rightarrow> nat \<Rightarrow> nat" where
  "js_find_pivot aug i n =
     fold (\<lambda>k maxRow. if js_greater (js_abs (aug ! k ! i)) (js_abs (aug ! maxRow ! i))
                       then k else maxRow) [i + 1..<n] i"

definition js_eliminate_row :: "nat \<Rightarrow> nat \<Rightarrow> nat \<Rightarrow> jsnum list list \<Rightarrow> jsnum list list" where
  "js_eliminate_row i n k aug =
     (let factor = js_div (aug ! k ! i) (aug ! i ! i) in
      if js_greater (js_abs factor) (Number tolerance) then
        fold (\<lambda>j a. a[k := (a ! k)[j := js_sub (a ! k ! j) (js_mul factor (a ! i ! j))]])
          [i..<n + 1] aug
      else aug)"

definition js_swap_pivot :: "nat \<Rightarrow> nat \<Rightarrow> jsnum list list \<Rightarrow> jsnum list list" where
  "js_swap_pivot i n aug =
     (let maxRow = js_find_pivot aug i n
      in if maxRow \<noteq> i then aug[i := aug ! maxRow, maxRow := aug ! i] else aug)"

definition js_pivot_round :: "nat \<Rightarrow> nat \<Rightarrow> jsnum list list \<Rightarrow> jsnum list list option" where
  "js_pivot_round i n aug =
     (let swapped = js_swap_pivot i n aug
      in if js_less (js_abs (swapped ! i ! i)) (Number tolerance) then None
         else Some (fold (js_eliminate_row i n) [i + 1..<n] swapped))"

function js_forward_elimination :: "nat \<Rightarrow> nat \<Rightarrow> jsnum list list \<Rightarrow> jsnum list list option" where
  "js_forward_elimination i n aug =
     (if i < n then
        (case js_pivot_round i n aug of
           None \<Rightarrow> None
         | Some aug' \<Rightarrow> js_forward_elimination (i + 1) n aug')
      else Some aug)"
  by pat_completeness auto
termination
  by (relation "measure (\<lambda>(i, n, aug). n - i)") auto

declare js_forward_elimination.simps [simp del]

definition js_back_substitution :: "jsnum list list \<Rightarrow> nat \<Rightarrow> jsnum list" where
  "js_back_substitution aug n =
     fold (\<lambda>i x.
        let x1 = x[i := aug ! i ! n];
            x2 = fold (\<lambda>j y. y[i := js_sub (y ! i) (js_mul (aug ! i ! j) (y ! j))]) [i + 1..<n] x1
        in x2[i := js_div (x2 ! i) (aug ! i ! i)])
      (rev [0..<n]) (replicate n (Number 0))"

definition js_augment :: "jsnum list list \<Rightarrow> jsnum list \<Rightarrow> jsnum list list" where
  "js_augment rws b = map (\<lambda>(row, i). row @ [b ! i]) (indexed rws)"

definition js_solve :: "JsMatrix \<Rightarrow> jsnum list \<Rightarrow> jsnum list option" where
  "js_solve M b =
     (let n = js_rows M
      in case js_forward_elimination 0 n (js_augment (js_data M) b) of
           None \<Rightarrow> None
         | Some aug \<Rightarrow> Some (js_back_substitution aug n))"

text \<open>
  The map \<^verbatim>\<open>voltages\<close> and the component results (steps 6 and 7).
  \<^verbatim>\<open>voltages.get(n)\<close> is \<^verbatim>\<open>undefined\<close>, here \<open>None\<close>, for a terminal that is neither the
  ground nor an unknown node, and \<^verbatim>\<open>undefined\<close> is NaN in a subtraction.
\<close>

definition js_node_voltages :: "Node list \<Rightarrow> jsnum list \<Rightarrow> string \<rightharpoonup> jsnum" where
  "js_node_voltages nodes solution =
     fold (\<lambda>(n, i) m. m(n_id n \<mapsto> solution ! i)) (indexed nodes) [groundNode \<mapsto> Number 0]"

fun to_number :: "jsnum option \<Rightarrow> jsnum" where
  "to_number None = NaN"
| "to_number (Some x) = x"

record JsComponentResult = Component +
  js_voltage :: jsnum
  js_current :: jsnum
  js_power :: jsnum

definition js_component_result ::
  "Circuit \<Rightarrow> (string \<rightharpoonup> jsnum) \<Rightarrow> jsnum list \<Rightarrow> Component \<Rightarrow> JsComponentResult" where
  "js_component_result circuit voltages solution cp =
     (let vA = voltages (fst (c_nodes cp));
          vB = voltages (snd (c_nodes cp));
          v = js_sub (to_number vA) (to_number vB);
          i = (if c_type cp = Resistor then js_div v (js_convertToOhms (c_value cp) (c_unit cp))
               else if c_type cp = VoltageSource then
                 (case findIndex (\<lambda>vs. c_id vs = c_id cp) (voltageSources circuit) of
                    Some vsIdx \<Rightarrow> solution ! (length (unknown_nodes circuit) + vsIdx)
                  | None \<Rightarrow> Number 0)
               else Number 0)
      in \<lparr>c_id = c_id cp, c_type = c_type cp, c_nodes = c_nodes cp,
          c_value = c_value cp, c_unit = c_unit cp,
          js_voltage = v, js_current = i, js_power = js_abs (js_mul v i)\<rparr>)"

definition js_componentResults ::
  "Circuit \<Rightarrow> (string \<rightharpoonup> jsnum) \<Rightarrow> jsnum list \<Rightarrow> JsComponentResult list" where
  "js_componentResults circuit voltages solution =
     map (js_component_result circuit voltages solution) (circ_components circuit)"

text \<open>
  The texts of step 7 call \<^verbatim>\<open>vA.toFixed(4)\<close> and \<^verbatim>\<open>vB.toFixed(4)\<close> for every resistor,
  which throws a \<^verbatim>\<open>TypeError\<close> when the potential read is \<^verbatim>\<open>undefined\<close>. Every other
  \<^verbatim>\<open>toFixed\<close> of the analysis is called on a number.
\<close>

definition undefined_potential :: "(string \<rightharpoonup> jsnum) \<Rightarrow> JsComponentResult \<Rightarrow> bool" where
  "undefined_potential voltages r \<longleftrightarrow>
     (case voltages (fst (c_nodes r)) of
        None \<Rightarrow> True
      | Some vA \<Rightarrow> (case voltages (snd (c_nodes r)) of None \<Rightarrow> True | Some vB \<Rightarrow> False))"

definition componentCalcs_throws :: "(string \<rightharpoonup> jsnum) \<Rightarrow> JsComponentResult list \<Rightarrow> bool" where
  "componentCalcs_throws voltages results \<longleftrightarrow>
     list_ex (\<lambda>r. c_type r = Resistor \<and> undefined_potential voltages r) results"

text \<open>The two sums of step 8.\<close>

definition js_total_power :: "comp_type \<Rightarrow> JsComponentResult list \<Rightarrow> jsnum" where
  "js_total_power t results =
     foldl (\<lambda>s c. js_add s (js_power c)) (Number 0) (filter (\<lambda>c. c_type c = t) results)"

definition js_totalPowerDissipated :: "JsComponentResult list \<Rightarrow> jsnum" where
  "js_totalPowerDissipated results = js_total_power Resistor results"

definition js_totalPowerSupplied :: "JsComponentResult list \<Rightarrow> jsnum" where
  "js_totalPowerSupplied results = js_total_power VoltageSource results"

text \<open>
  The outcomes of the analysis: the object with \<^verbatim>\<open>error\<close>, the exception, and the object
  with \<^verbatim>\<open>voltages\<close> and \<^verbatim>\<open>componentResults\<close>.
\<close>

datatype js_analysis_result =
    JsFailure
  | JsTypeError
  | JsSuccess "string \<rightharpoonup> jsnum" "JsComponentResult list"

definition js_analyzeNodalMethod :: "Circuit \<Rightarrow> js_analysis_result" where
  "js_analyzeNodalMethod circuit =
     (case js_assemble circuit of (A, b) \<Rightarrow>
        (case js_solve A b of
           None \<Rightarrow> JsFailure
         | Some solution \<Rightarrow>
             let voltages = js_node_voltages (unknown_nodes circuit) solution;
                 results = js_componentResults circuit voltages solution
             in if componentCalcs_throws voltages results then JsTypeError
                else JsSuccess voltages results))"

fun js_result_components :: "js_analysis_result \<Rightarrow> JsComponentResult list option" where
  "js_result_components (JsSuccess v rs) = Some rs"
| "js_result_components _ = None"

subsection \<open>Circuits and notions used in the statements\<close>

text \<open>The invariants of a circuit that the statements below refer to.\<close>

definition distinct_node_ids :: "Circuit \<Rightarrow> bool" where
  "distinct_node_ids circuit \<longleftrightarrow> distinct (map n_id (circ_nodes circuit))"

text \<open>A terminal is declared when it is the ground or the identifier of a node of the circuit.\<close>

definition terminal_declared :: "Circuit \<Rightarrow> string \<Rightarrow> bool" where
  "terminal_declared circuit t \<longleftrightarrow> t = groundNode \<or> t \<in> set (map n_id (circ_nodes circuit))"

text \<open>The eight phases of a derivation and the title of the record of each.\<close>

datatype phase = Identification | Conversion | EquationAssembly | MatrixDisplay
  | Elimination | Interpretation | ComponentCalculation | Verification

definition all_phases :: "phase list" where
  "all_phases = [Identification, Conversion, EquationAssembly, MatrixDisplay,
                 Elimination, Interpretation, ComponentCalculation, Verification]"

fun phase_title :: "phase \<Rightarrow> string" where
  "phase_title Identification = ''1. IDENTIFICACI'' @ O_acute @ ''N Y AN'' @ A_acute @ ''LISIS DEL CIRCUITO''"
| "phase_title Conversion = ''2. CONVERSI'' @ O_acute @ ''N A CONDUCTANCIAS''"
| "phase_title EquationAssembly = ''3. PLANTEAMIENTO DE ECUACIONES NODALES''"
| "phase_title MatrixDisplay = ''4. SISTEMA MATRICIAL [A][x] = [b]''"
| "phase_title Elimination = ''5. RESOLUCI'' @ O_acute @ ''N POR ELIMINACI'' @ O_acute @ ''N GAUSSIANA''"
| "phase_title Interpretation = ''6. INTERPRETACI'' @ O_acute @ ''N DE RESULTADOS''"
| "phase_title ComponentCalculation = ''7. C'' @ A_acute @ ''LCULO DE CORRIENTES Y POTENCIAS''"
| "phase_title Verification = ''8. VERIFICACI'' @ O_acute @ ''N DE RESULTADOS''"

text \<open>
  Whether every record of the solver occurs, in the text it has inside the record of
  step 5, among the equations of some record of a trace.
\<close>

definition solver_records_in :: "(string \<times> string) list \<Rightarrow> Step list \<Rightarrow> bool" where
  "solver_records_in solutionSteps trace \<longleftrightarrow>
     list_all (\<lambda>(t, content).
        list_ex (\<lambda>s. case equations s of None \<Rightarrow> False | Some eqs \<Rightarrow> t @ nl @ content \<in> set eqs) trace)
       solutionSteps"

text \<open>
  The sum of the conductances of the resistors between two nodes, in either orientation,
  and of those with exactly one terminal at a node.
\<close>

definition conductance_between :: "Circuit \<Rightarrow> string \<Rightarrow> string \<Rightarrow> real" where
  "conductance_between circuit x y =
     sum_list (map cond_G (filter (\<lambda>r. c_nodes r = (x, y) \<or> c_nodes r = (y, x)) (conductances circuit)))"

definition conductance_at :: "Circuit \<Rightarrow> string \<Rightarrow> real" where
  "conductance_at circuit x =
     sum_list (map cond_G (filter (\<lambda>r. (fst (c_nodes r) = x) \<noteq> (snd (c_nodes r) = x))
                                  (conductances circuit)))"

text \<open>
  The sum of the conductances of the resistors with exactly one terminal at \<open>x\<close> that are
  not between \<open>x\<close> and \<open>y\<close>.
\<close>

definition conductance_elsewhere :: "Circuit \<Rightarrow> string \<Rightarrow> string \<Rightarrow> real" where
  "conductance_elsewhere circuit x y =
     sum_list (map cond_G (filter (\<lambda>r. (fst (c_nodes r) = x) \<noteq> (snd (c_nodes r) = x) \<and>
                                        \<not> (c_nodes r = (x, y) \<or> c_nodes r = (y, x)))
                                  (conductances circuit)))"

text \<open>A matrix value with \<open>n\<close> rows of \<open>n\<close> entries.\<close>

definition square_of_size :: "Matrix \<Rightarrow> nat \<Rightarrow> bool" where
  "square_of_size M n \<longleftrightarrow> length (data M) = n \<and> list_all (\<lambda>row. length row = n) (data M)"

text \<open>
  What one resistor adds to the entry in column \<open>col\<close> of the row \<open>idx\<close> of the node
  \<open>nid\<close>, read off the two branches of the source.
\<close>

definition conductance_stamp :: "(string \<rightharpoonup> nat) \<Rightarrow> string \<Rightarrow> nat \<Rightarrow> nat \<Rightarrow> Conductance \<Rightarrow> real" where
  "conductance_stamp nmap nid idx col c =
     (if fst (c_nodes c) = nid \<or> snd (c_nodes c) = nid then
        (if col = idx then cond_G c else 0) +
        (let otherNode = (if fst (c_nodes c) = nid then snd (c_nodes c) else fst (c_nodes c))
         in if otherNode \<noteq> groundNode \<and> nmap otherNode = Some col then - cond_G c else 0)
      else 0)"

definition without_current_sources :: "Circuit \<Rightarrow> Circuit" where
  "without_current_sources circuit =
     circuit\<lparr>circ_components := filter (\<lambda>c. c_type c \<noteq> CurrentSource) (circ_components circuit)\<rparr>"

text \<open>The resistance of two resistors in parallel.\<close>

definition parallel :: "real \<Rightarrow> real \<Rightarrow> real" where
  "parallel r1 r2 = r1 * r2 / (r1 + r2)"

text \<open>A rendering of numbers that prints nothing, for the evaluation of concrete circuits.\<close>

definition blank_fmt :: numfmt where
  "blank_fmt = \<lparr>toFixed = (\<lambda>x d. []), toStr = (\<lambda>x. [])\<rparr>"

definition node :: "string \<Rightarrow> string \<Rightarrow> Node" where
  "node i nm = \<lparr>n_id = i, n_name = nm\<rparr>"

definition component :: "string \<Rightarrow> comp_type \<Rightarrow> string \<Rightarrow> string \<Rightarrow> real \<Rightarrow> string \<Rightarrow> Component" where
  "component i t a b v u = \<lparr>c_id = i, c_type = t, c_nodes = (a, b), c_value = v, c_unit = u\<rparr>"

text \<open>
  The voltage divider: a source of 12 V and a resistor of \<open>r\<close> ohms, both from \<open>n1\<close> to the
  ground.
\<close>

definition divider :: "real \<Rightarrow> Circuit" where
  "divider r =
     \<lparr>circ_name = ''Divisor'',
      circ_nodes = [node ''n1'' ''Nodo 1'', node ''gnd'' ''Tierra''],
      circ_components = [component ''V1'' VoltageSource ''n1'' ''gnd'' 12 ''V'',
                         component ''R1'' Resistor ''n1'' ''gnd'' r Omega],
      circ_method = nodal\<rparr>"

text \<open>
  The circuits of this shape: the ground and one other node \<open>a\<close>, in either order, and two
  components, in either order, a voltage source of 12 V and a resistor of \<open>R\<close> ohms, both
  from \<open>a\<close> to the ground.
\<close>

definition source_of_12V :: "string \<Rightarrow> Component \<Rightarrow> bool" where
  "source_of_12V a x \<longleftrightarrow>
     c_type x = VoltageSource \<and> c_nodes x = (a, groundNode) \<and> c_value x = 12"

definition resistor_of :: "string \<Rightarrow> real \<Rightarrow> Component \<Rightarrow> bool" where
  "resistor_of a R y \<longleftrightarrow>
     c_type y = Resistor \<and> c_nodes y = (a, groundNode) \<and> convertToOhms (c_value y) (c_unit y) = R"

definition is_divider :: "Circuit \<Rightarrow> string \<Rightarrow> real \<Rightarrow> bool" where
  "is_divider circuit a R \<longleftrightarrow>
     a \<noteq> groundNode \<and>
     (map n_id (circ_nodes circuit) = [a, groundNode] \<or>
      map n_id (circ_nodes circuit) = [groundNode, a]) \<and>
     (case circ_components circuit of
        [x, y] \<Rightarrow> source_of_12V a x \<and> resistor_of a R y \<or> resistor_of a R x \<and> source_of_12V a y
      | _ \<Rightarrow> False)"

text \<open>The circuit \<^verbatim>\<open>Ejercicio 2\<close> of the source.\<close>

definition ejercicio2 :: Circuit where
  "ejercicio2 =
     \<lparr>circ_name = ''Ejercicio 2: Circuito con fuente y tres resistencias'',
      circ_nodes = [node ''n1'' ''Nodo 1'', node ''n2'' ''Nodo 2'', node ''gnd'' ''Tierra''],
      circ_components = [component ''V1'' VoltageSource ''n1'' ''gnd'' 10 ''V'',
                         component ''R1'' Resistor ''n1'' ''n2'' 2 (''k'' @ Omega),
                         component ''R2'' Resistor ''n2'' ''gnd'' 3 (''k'' @ Omega),
                         component ''R3'' Resistor ''n2'' ''gnd'' 2 (''k'' @ Omega)],
      circ_method = nodal\<rparr>"

text \<open>The same components with a third node \<open>n3\<close> that no component is connected to.\<close>

definition ladder_n3 :: Circuit where
  "ladder_n3 =
     ejercicio2\<lparr>circ_nodes := [node ''n1'' ''Nodo 1'', node ''n2'' ''Nodo 2'',
                                node ''n3'' ''Nodo 3'', node ''gnd'' ''Tierra'']\<rparr>"

text \<open>A source of 100 kV across a resistor of 100000 megaohms.\<close>

definition high_voltage :: Circuit where
  "high_voltage =
     \<lparr>circ_name = ''Aislamiento'',
      circ_nodes = [node ''n1'' ''Nodo 1'', node ''gnd'' ''Tierra''],
      circ_components = [component ''V1'' VoltageSource ''n1'' ''gnd'' 100000 ''V'',
                         component ''R1'' Resistor ''n1'' ''gnd'' 100000 (''M'' @ Omega)],
      circ_method = nodal\<rparr>"

text \<open>The divider of 100 ohms whose node list does not declare the ground.\<close>

definition undeclared_ground :: Circuit where
  "undeclared_ground = (divider 100)\<lparr>circ_nodes := [node ''n1'' ''Nodo 1'']\<rparr>"

text \<open>\<^verbatim>\<open>Ejercicio 2\<close> with a current source of 1 mA from \<open>n2\<close> to the ground added.\<close>

definition with_current_source :: Circuit where
  "with_current_source =
     ejercicio2\<lparr>circ_components :=
       circ_components ejercicio2 @ [component ''I1'' CurrentSource ''n2'' ''gnd'' 1 ''mA'']\<rparr>"

text \<open>
  A source of 12 V at \<open>n1\<close>, resistors of 100 ohms from \<open>n1\<close> to \<open>n2\<close> and from \<open>n3\<close> to
  the ground, a resistor of 0 ohms from \<open>n2\<close> to \<open>n3\<close>, and a current source of 1 mA from
  \<open>n1\<close> to the ground. Every terminal is declared.
\<close>

definition zero_ohm_link :: Circuit where
  "zero_ohm_link =
     \<lparr>circ_name = ''Puente'',
      circ_nodes = [node ''n1'' ''Nodo 1'', node ''n2'' ''Nodo 2'', node ''n3'' ''Nodo 3'',
                    node ''gnd'' ''Tierra''],
      circ_components = [component ''V1'' VoltageSource ''n1'' ''gnd'' 12 ''V'',
                         component ''R1'' Resistor ''n1'' ''n2'' 100 Omega,
                         component ''R2'' Resistor ''n2'' ''n3'' 0 Omega,
                         component ''R3'' Resistor ''n3'' ''gnd'' 100 Omega,
                         component ''I1'' CurrentSource ''n1'' ''gnd'' 1 ''mA''],
      circ_method = nodal\<rparr>"

text \<open>
  The divider of 100 ohms with a current source of 1 mA from \<open>n1\<close> to \<open>n9\<close>, which is not
  a node of the circuit.
\<close>

definition undeclared_terminal :: Circuit where
  "undeclared_terminal =
     (divider 100)\<lparr>circ_components :=
       circ_components (divider 100) @ [component ''I1'' CurrentSource ''n1'' ''n9'' 1 ''mA'']\<rparr>"

text \<open>A store holding the matrix \<open>[[1, 1], [2, 4]]\<close> and the matrix object for it.\<close>

definition store2 :: store where
  "store2 = [Numbers [1, 1], Numbers [2, 4], Rows [0, 1]]"

definition matrix2 :: MatrixRef where
  "matrix2 = \<lparr>ref_data = 2, ref_rows = 2, ref_cols = 2\<rparr>"

section \<open>Properties\<close>

subsection \<open>The shape of the returned object\<close>

lemma assembly_steps_titles:
  "map title (assembly_steps F c) =
     map phase_title [Identification, Conversion, EquationAssembly, MatrixDisplay]"
  unfolding assembly_steps_def step_identification_def step_conductances_def
    step_equations_def step_matrix_def
  by (cases "assemble F c") (simp only: prod.case list.map phase_title.simps Step.simps)

lemma analyze_failure:
  assumes "assemble F c = (A, b, eqs)" and "fst (solve F A b) = None"
  shows "analyzeNodalMethod F c = Failure error_message (assembly_steps F c)"
  using assms by (cases "solve F A b") (simp add: analyzeNodalMethod_def Let_def)

lemma analyze_success:
  assumes "assemble F c = (A, b, eqs)" and "solve F A b = (Some x, ss)"
  shows "analyzeNodalMethod F c =
           Success (node_voltages (unknown_nodes c) x)
             (componentResults c (node_voltages (unknown_nodes c) x) x)
             (assembly_steps F c @
                [step_elimination ss, step_interpretation F c x,
                 step_components F (node_voltages (unknown_nodes c) x)
                   (componentResults c (node_voltages (unknown_nodes c) x) x),
                 step_verification F (componentResults c (node_voltages (unknown_nodes c) x) x)])
             ''Nodal''"
  using assms by (simp add: analyzeNodalMethod_def Let_def)

lemma analyze_Success_D:
  assumes "analyzeNodalMethod F c = Success v rs st m"
  obtains A b eqs x ss where "assemble F c = (A, b, eqs)" and "solve F A b = (Some x, ss)"
    and "v = node_voltages (unknown_nodes c) x" and "rs = componentResults c v x"
    and "st = assembly_steps F c @ [step_elimination ss, step_interpretation F c x,
                 step_components F v rs, step_verification F rs]"
    and "m = ''Nodal''"
  using assms
  by (auto simp: analyzeNodalMethod_def Let_def split: prod.splits option.splits)

lemma succeeded_iff: "succeeded r \<longleftrightarrow> (\<exists>v rs st m. r = Success v rs st m)"
  by (cases r) auto

subsection \<open>The order of the records\<close>

text \<open>
  C8. When the analysis succeeds, the titles of the returned records are exactly the titles
  of the eight phases (identification, conductance conversion, equation assembly, matrix
  display, elimination, interpretation, calculation per component, verification), one
  record for each and in this order.
\<close>

theorem trace_completeness:
  assumes "succeeded (analyzeNodalMethod F c)"
  shows "map title (result_steps (analyzeNodalMethod F c)) = map phase_title all_phases"
proof -
  from assms obtain v rs st m where r: "analyzeNodalMethod F c = Success v rs st m"
    by (auto simp: succeeded_iff)
  then obtain ss x where
    st: "st = assembly_steps F c @ [step_elimination ss, step_interpretation F c x,
                 step_components F v rs, step_verification F rs]"
    by (rule analyze_Success_D)
  have "map title st = map phase_title all_phases"
    unfolding st map_append assembly_steps_titles
    by (simp only: all_phases_def step_elimination_def step_interpretation_def
          step_components_def step_verification_def Let_def list.map phase_title.simps
          Step.simps append.simps)
  with r show ?thesis by simp
qed

lemma ejercicio2_succeeds: "succeeded (analyzeNodalMethod blank_fmt ejercicio2)"
  by code_simp

theorem trace_completeness_witness:
  "succeeded (analyzeNodalMethod blank_fmt ejercicio2) \<and>
   map title (result_steps (analyzeNodalMethod blank_fmt ejercicio2)) = map phase_title all_phases"
  using trace_completeness [OF ejercicio2_succeeds] ejercicio2_succeeds by (rule conjI [rotated])

subsection \<open>The potential of the ground\<close>

lemma fold_update_other:
  assumes "\<forall>p \<in> set nis. n_id (fst p) \<noteq> k"
  shows "fold (\<lambda>(n, i) m. m(n_id n \<mapsto> x ! i)) nis m0 k = m0 k"
  using assms by (induction nis arbitrary: m0) (auto split: prod.splits)

lemma unknown_nodes_not_ground: "n \<in> set (unknown_nodes c) \<Longrightarrow> n_id n \<noteq> groundNode"
  by (simp add: unknown_nodes_def)

lemma node_voltages_ground: "node_voltages (unknown_nodes c) x groundNode = Some 0"
proof -
  have "\<forall>p \<in> set (indexed (unknown_nodes c)). n_id (fst p) \<noteq> groundNode"
    by (auto simp: indexed_def unknown_nodes_def dest!: set_zip_leftD)
  then show ?thesis
    unfolding node_voltages_def by (simp add: fold_update_other)
qed

lemma result_voltages_D:
  assumes "result_voltages (analyzeNodalMethod F c) = Some v"
  obtains A b eqs x ss where "assemble F c = (A, b, eqs)" and "solve F A b = (Some x, ss)"
    and "v = node_voltages (unknown_nodes c) x"
proof -
  from assms obtain rs st m where "analyzeNodalMethod F c = Success v rs st m"
    by (cases "analyzeNodalMethod F c") auto
  then show ?thesis by (rule analyze_Success_D) (rule that)
qed

text \<open>
  C7. When the analysis succeeds, the returned map of potentials gives the ground the
  value 0, whatever the circuit.
\<close>

theorem ground_potential_zero:
  assumes "result_voltages (analyzeNodalMethod F c) = Some v"
  shows "v groundNode = Some 0"
  using assms by (elim result_voltages_D) (simp add: node_voltages_ground)

lemma ejercicio2_voltages:
  "\<exists>v. result_voltages (analyzeNodalMethod blank_fmt ejercicio2) = Some v"
  using ejercicio2_succeeds by (cases "analyzeNodalMethod blank_fmt ejercicio2") auto

theorem ground_potential_zero_witness:
  "\<exists>v. result_voltages (analyzeNodalMethod blank_fmt ejercicio2) = Some v \<and> v groundNode = Some 0"
proof -
  from ejercicio2_voltages obtain v
    where v: "result_voltages (analyzeNodalMethod blank_fmt ejercicio2) = Some v" ..
  from ground_potential_zero [OF v] v show ?thesis by blast
qed

subsection \<open>The ground is the node named gnd\<close>

lemma fold_update_member:
  assumes "p \<in> set nis"
  shows "\<exists>q \<in> set nis. fold (\<lambda>(n, i) m. m(n_id n \<mapsto> x ! i)) nis m0 (n_id (fst p)) = Some (x ! snd q)"
  using assms
proof (induction nis arbitrary: m0 rule: rev_induct)
  case Nil
  then show ?case by simp
next
  case (snoc a nis)
  show ?case
  proof (cases "n_id (fst a) = n_id (fst p)")
    case True
    then show ?thesis by (auto split: prod.splits)
  next
    case False
    with snoc.prems have "p \<in> set nis" by auto
    from snoc.IH [OF this, of m0] False show ?thesis by (auto split: prod.splits)
  qed
qed

lemma fold_update_dom:
  "dom (fold (\<lambda>(n, i) m. m(n_id n \<mapsto> x ! i)) nis m0) = dom m0 \<union> (\<lambda>p. n_id (fst p)) ` set nis"
  by (induction nis arbitrary: m0) (auto split: prod.splits)

lemma indexed_fst: "map fst (indexed xs) = xs"
  by (simp add: indexed_def)

lemma indexed_snd_less: "p \<in> set (indexed xs) \<Longrightarrow> snd p < length xs"
  by (cases p) (auto simp: indexed_def dest: set_zip_rightD)

lemma set_indexed_fst: "fst ` set (indexed xs) = set xs"
  by (metis indexed_fst set_map)

lemma set_indexed_ids: "(\<lambda>p. n_id (fst p)) ` set (indexed xs) = n_id ` set xs"
  by (metis image_image set_indexed_fst)

lemma fold_invariant:
  assumes "\<And>x s. x \<in> set xs \<Longrightarrow> I s \<Longrightarrow> I (f x s)" and "I s"
  shows "I (fold f xs s)"
  using assms by (induction xs arbitrary: s) auto

lemma rows_add_entry [simp]: "rows (add_entry M r c v) = rows M"
  by (simp add: add_entry_def)

lemma rows_set_entry [simp]: "rows (set_entry M r c v) = rows M"
  by (simp add: set_entry_def)

lemma rows_stamp_conductance: "rows (fst (stamp_conductance nmap nd idx c st)) = rows (fst st)"
  by (cases st) (simp add: stamp_conductance_def Let_def split: option.splits)

lemma rows_stamp_source: "rows (fst (stamp_source_at_node k nd idx vsi st)) = rows (fst st)"
  by (cases st) (simp add: stamp_source_at_node_def Let_def)

lemma rows_node_equation: "rows (fst (node_equation nmap k conds vss ni st)) = rows (fst st)"
proof -
  obtain A eqs where st: "st = (A, eqs)" by (cases st)
  have 1: "rows (fst (fold (stamp_conductance nmap (fst ni) (snd ni)) conds (A, []))) = rows A"
    by (rule fold_invariant [where I = "\<lambda>s. rows (fst s) = rows A"])
       (simp_all add: rows_stamp_conductance)
  have "rows (fst (fold (stamp_source_at_node k (fst ni) (snd ni)) (indexed vss)
          (fold (stamp_conductance nmap (fst ni) (snd ni)) conds (A, [])))) = rows A"
    by (rule fold_invariant [where I = "\<lambda>s. rows (fst s) = rows A"])
       (simp_all add: rows_stamp_source 1)
  then show ?thesis by (simp add: st node_equation_def Let_def)
qed

lemma rows_source_equation: "rows (fst (source_equation F nmap k vsi st)) = rows (fst st)"
  by (cases st) (simp add: source_equation_def Let_def split: option.splits prod.splits)

lemma assemble_rows:
  assumes "assemble F c = (A, b, eqs)"
  shows "rows A = length (unknown_nodes c) + length (voltageSources c)"
proof -
  let ?n = "length (unknown_nodes c) + length (voltageSources c)"
  let ?st1 = "fold (node_equation (nodeMap c) (length (unknown_nodes c)) (conductances c)
                 (voltageSources c)) (indexed (unknown_nodes c)) (new_Matrix ?n ?n 0, [])"
  have 1: "rows (fst ?st1) = ?n"
    by (rule fold_invariant [where I = "\<lambda>s. rows (fst s) = ?n"])
       (simp_all add: rows_node_equation new_Matrix_def)
  have "rows (fst (fold (source_equation F (nodeMap c) (length (unknown_nodes c)))
          (indexed (voltageSources c)) (fst ?st1, replicate ?n 0, snd ?st1))) = ?n"
    by (rule fold_invariant [where I = "\<lambda>s. rows (fst s) = ?n"])
       (simp_all add: rows_source_equation 1)
  with assms show ?thesis by (simp add: assemble_def Let_def)
qed

text \<open>
  C10. The ground is recognised by the identifier \<open>gnd\<close> alone. When the analysis
  succeeds, the returned map has the key \<open>gnd\<close> with value 0, also when no node of the
  circuit has this identifier; its keys are \<open>gnd\<close> and the identifiers of the nodes; the
  unknowns are the nodes whose identifier is not \<open>gnd\<close>, each with a row of the matrix and
  with an entry of the solution as its potential.
\<close>

theorem ground_is_literal_gnd:
  assumes "result_voltages (analyzeNodalMethod F c) = Some v"
  shows "v ''gnd'' = Some 0 \<and>
         dom v = insert ''gnd'' (n_id ` set (circ_nodes c)) \<and>
         unknown_nodes c = filter (\<lambda>n. n_id n \<noteq> ''gnd'') (circ_nodes c) \<and>
         (\<exists>A b eqs x ss. assemble F c = (A, b, eqs) \<and> solve F A b = (Some x, ss) \<and>
            rows A = length (unknown_nodes c) + length (voltageSources c) \<and>
            (\<forall>n \<in> set (circ_nodes c). n_id n \<noteq> ''gnd'' \<longrightarrow>
               (\<exists>i < length (unknown_nodes c). v (n_id n) = Some (x ! i))))"
proof -
  from assms obtain A b eqs x ss where a: "assemble F c = (A, b, eqs)"
    and s: "solve F A b = (Some x, ss)" and v: "v = node_voltages (unknown_nodes c) x"
    by (rule result_voltages_D)
  have g: "v ''gnd'' = Some 0"
    using node_voltages_ground [of c x] by (simp add: v groundNode_def)
  have u: "unknown_nodes c = filter (\<lambda>n. n_id n \<noteq> ''gnd'') (circ_nodes c)"
    by (simp add: unknown_nodes_def groundNode_def)
  have "dom v = insert ''gnd'' (n_id ` set (unknown_nodes c))"
    unfolding v node_voltages_def fold_update_dom
    by (simp add: groundNode_def set_indexed_ids)
  also have "\<dots> = insert ''gnd'' (n_id ` set (circ_nodes c))"
    unfolding u by auto
  finally have d: "dom v = insert ''gnd'' (n_id ` set (circ_nodes c))" .
  have "\<exists>i < length (unknown_nodes c). v (n_id n) = Some (x ! i)"
    if "n \<in> set (circ_nodes c)" and "n_id n \<noteq> ''gnd''" for n
  proof -
    from that have "n \<in> set (unknown_nodes c)" by (simp add: u)
    then have "n \<in> fst ` set (indexed (unknown_nodes c))"
      by (simp only: set_indexed_fst)
    then obtain p where p: "p \<in> set (indexed (unknown_nodes c))" and "fst p = n"
      by (auto simp: image_iff)
    from fold_update_member [OF p, of x "[groundNode \<mapsto> 0]"] \<open>fst p = n\<close>
    obtain q where "q \<in> set (indexed (unknown_nodes c))" and "v (n_id n) = Some (x ! snd q)"
      unfolding v node_voltages_def by auto
    then show ?thesis using indexed_snd_less by blast
  qed
  with g d u a s assemble_rows [OF a] show ?thesis by blast
qed

lemma undeclared_ground_voltages:
  "\<exists>v. result_voltages (analyzeNodalMethod blank_fmt undeclared_ground) = Some v"
proof -
  have "succeeded (analyzeNodalMethod blank_fmt undeclared_ground)"
    by code_simp
  then show ?thesis
    by (cases "analyzeNodalMethod blank_fmt undeclared_ground") auto
qed

theorem ground_is_literal_gnd_witness:
  "''gnd'' \<notin> n_id ` set (circ_nodes undeclared_ground) \<and>
   (\<exists>v. result_voltages (analyzeNodalMethod blank_fmt undeclared_ground) = Some v \<and>
        v ''gnd'' = Some 0 \<and> dom v = {''gnd'', ''n1''})"
proof -
  from undeclared_ground_voltages obtain v
    where v: "result_voltages (analyzeNodalMethod blank_fmt undeclared_ground) = Some v" ..
  have n: "n_id ` set (circ_nodes undeclared_ground) = {''n1''}"
    by (simp add: undeclared_ground_def node_def)
  from ground_is_literal_gnd [OF v] have "v ''gnd'' = Some 0" and "dom v = {''gnd'', ''n1''}"
    unfolding n by blast+
  with v n show ?thesis by auto
qed

subsection \<open>The singular outcome\<close>

lemma solve_Inl:
  assumes "forward_elimination F 0 (rows M) (augment (data M) b)
             [initial_record F (augment (data M) b)] = Inl ss"
  shows "solve F M b = (None, ss)"
  using assms by (simp add: solve_def Let_def)

lemma solve_Inr:
  assumes "forward_elimination F 0 (rows M) (augment (data M) b)
             [initial_record F (augment (data M) b)] = Inr (aug, ss)"
  shows "solve F M b =
           (Some (back_substitution aug (rows M)),
            ss @ [(''Matriz escalonada:'', formatAugmented F aug),
                  solution_record F (back_substitution aug (rows M))])"
  using assms by (simp add: solve_def Let_def)

lemma solve_None_iff:
  "fst (solve F M b) = None \<longleftrightarrow>
     (\<exists>ss. forward_elimination F 0 (rows M) (augment (data M) b)
              [initial_record F (augment (data M) b)] = Inl ss)"
  by (cases "forward_elimination F 0 (rows M) (augment (data M) b)
              [initial_record F (augment (data M) b)]")
     (auto simp: solve_Inl solve_Inr)

lemma pivot_round_Inl_iff:
  "pivot_round F i n aug st = Inl ss \<longleftrightarrow>
     \<bar>fst (swap_pivot F i n aug st) ! i ! i\<bar> < tolerance \<and> ss = snd (swap_pivot F i n aug st)"
  by (auto simp: pivot_round_def Let_def)

text \<open>A state of the loop determines the rest of the run.\<close>

lemma stage_forward:
  assumes "elimination_stage F n aug0 st0 i aug st"
  shows "forward_elimination F 0 n aug0 st0 = forward_elimination F i n aug st"
  using assms
proof (induction rule: elimination_stage.induct)
  case stage_start
  show ?case ..
next
  case (stage_next i aug steps aug' steps')
  from stage_next.hyps(2,3)
  have "forward_elimination F i n aug steps = forward_elimination F (i + 1) n aug' steps'"
    by (subst forward_elimination.simps) simp
  with stage_next.IH show ?case by simp
qed

lemma stage_small_pivot:
  assumes "elimination_stage F n aug0 st0 i aug st" and "i < n"
    and "\<bar>fst (swap_pivot F i n aug st) ! i ! i\<bar> < tolerance"
  shows "forward_elimination F 0 n aug0 st0 = Inl (snd (swap_pivot F i n aug st))"
proof -
  from assms(3) have "pivot_round F i n aug st = Inl (snd (swap_pivot F i n aug st))"
    by (simp add: pivot_round_Inl_iff)
  with assms(2) have "forward_elimination F i n aug st = Inl (snd (swap_pivot F i n aug st))"
    by (subst forward_elimination.simps) simp
  with stage_forward [OF assms(1)] show ?thesis by simp
qed

text \<open>Conversely, an early return comes from a round whose pivot is below the tolerance.\<close>

lemma forward_Inl_stage:
  assumes "forward_elimination F i n aug st = Inl ss"
    and "elimination_stage F n aug0 st0 i aug st"
  shows "\<exists>j a s. elimination_stage F n aug0 st0 j a s \<and> j < n \<and>
           \<bar>fst (swap_pivot F j n a s) ! j ! j\<bar> < tolerance \<and> ss = snd (swap_pivot F j n a s)"
  using assms
proof (induction F i n aug st rule: forward_elimination.induct)
  case (1 F i n aug steps)
  from "1.prems"(1) have lt: "i < n"
    by (subst (asm) forward_elimination.simps) (simp split: if_splits)
  show ?case
  proof (cases "pivot_round F i n aug steps")
    case (Inl ss')
    with "1.prems"(1) lt have "ss' = ss"
      by (subst (asm) forward_elimination.simps) simp
    with Inl "1.prems"(2) lt show ?thesis
      by (auto simp: pivot_round_Inl_iff)
  next
    case (Inr p)
    obtain aug' steps' where p: "p = (aug', steps')" by (cases p)
    from "1.prems"(1) lt Inr p have "forward_elimination F (i + 1) n aug' steps' = Inl ss"
      by (subst (asm) forward_elimination.simps) simp
    moreover from Inr p have "pivot_round F i n aug steps = Inr (aug', steps')"
      by simp
    from stage_next [OF "1.prems"(2) lt this]
    have "elimination_stage F n aug0 st0 (i + 1) aug' steps'" .
    ultimately show ?thesis
      using "1.IH" [OF lt Inr p [symmetric]] by blast
  qed
qed

text \<open>
  C4 (as amended). When, at some stage of the elimination, the pivot chosen after the row
  search is below the tolerance in absolute value, the solver returns no solution together
  with the records it has pushed up to the swap of that stage (no record of the echelon
  matrix or of the back substitution), and the analysis returns the failure with exactly
  the four records of the assembly: no potentials, no component results, and none of the
  solver's records.
\<close>

theorem singular_failure:
  assumes "assemble F c = (A, b, eqs)"
    and "elimination_stage F (rows A) (augment (data A) b) [initial_record F (augment (data A) b)]
           j aug st"
    and "j < rows A"
    and "\<bar>fst (swap_pivot F j (rows A) aug st) ! j ! j\<bar> < tolerance"
  shows "solve F A b = (None, snd (swap_pivot F j (rows A) aug st)) \<and>
         analyzeNodalMethod F c =
           Failure error_message
             [step_identification c, step_conductances F c, step_equations eqs, step_matrix F A b] \<and>
         result_voltages (analyzeNodalMethod F c) = None \<and>
         result_components (analyzeNodalMethod F c) = None"
proof -
  from stage_small_pivot [OF assms(2,3,4)]
  have s: "solve F A b = (None, snd (swap_pivot F j (rows A) aug st))"
    by (rule solve_Inl)
  then have "fst (solve F A b) = None" by simp
  from analyze_failure [OF assms(1) this]
  have "analyzeNodalMethod F c =
           Failure error_message
             [step_identification c, step_conductances F c, step_equations eqs, step_matrix F A b]"
    by (simp add: assembly_steps_def assms(1))
  with s show ?thesis by simp
qed

lemma ladder_n3_singular:
  "fst (solve blank_fmt (fst (assemble blank_fmt ladder_n3))
          (fst (snd (assemble blank_fmt ladder_n3)))) = None"
  by code_simp

theorem singular_failure_witness:
  "\<exists>A b eqs j aug st.
     assemble blank_fmt ladder_n3 = (A, b, eqs) \<and>
     elimination_stage blank_fmt (rows A) (augment (data A) b)
       [initial_record blank_fmt (augment (data A) b)] j aug st \<and>
     j < rows A \<and>
     \<bar>fst (swap_pivot blank_fmt j (rows A) aug st) ! j ! j\<bar> < tolerance \<and>
     solve blank_fmt A b = (None, snd (swap_pivot blank_fmt j (rows A) aug st)) \<and>
     analyzeNodalMethod blank_fmt ladder_n3 =
       Failure error_message
         [step_identification ladder_n3, step_conductances blank_fmt ladder_n3,
          step_equations eqs, step_matrix blank_fmt A b]"
proof -
  obtain A b eqs where a: "assemble blank_fmt ladder_n3 = (A, b, eqs)"
    by (cases "assemble blank_fmt ladder_n3") auto
  with ladder_n3_singular have "fst (solve blank_fmt A b) = None" by simp
  then obtain ss where "forward_elimination blank_fmt 0 (rows A) (augment (data A) b)
      [initial_record blank_fmt (augment (data A) b)] = Inl ss"
    by (auto simp: solve_None_iff)
  from forward_Inl_stage [OF this stage_start] obtain j aug st where
    st: "elimination_stage blank_fmt (rows A) (augment (data A) b)
           [initial_record blank_fmt (augment (data A) b)] j aug st"
    and j: "j < rows A"
    and p: "\<bar>fst (swap_pivot blank_fmt j (rows A) aug st) ! j ! j\<bar> < tolerance"
    by blast
  from singular_failure [OF a st j p] a st j p show ?thesis by blast
qed

text \<open>
  C4 as stated fails: for the ladder with the unconnected node \<open>n3\<close> the solver returns no
  solution and records of its own, and these records are not in the returned trace.
\<close>

theorem singular_failure_counterexample:
  "fst (solve blank_fmt (fst (assemble blank_fmt ladder_n3))
          (fst (snd (assemble blank_fmt ladder_n3)))) = None \<and>
   \<not> solver_records_in
       (snd (solve blank_fmt (fst (assemble blank_fmt ladder_n3))
               (fst (snd (assemble blank_fmt ladder_n3)))))
       (result_steps (analyzeNodalMethod blank_fmt ladder_n3))"
  by code_simp

subsection \<open>Current sources\<close>

lemma filter_without_current_sources:
  "t \<noteq> CurrentSource \<Longrightarrow>
     filter (\<lambda>c. c_type c \<noteq> CurrentSource \<and> c_type c = t) cs = filter (\<lambda>c. c_type c = t) cs"
  by (rule filter_cong) auto

lemma without_current_sources_simps:
  "unknown_nodes (without_current_sources c) = unknown_nodes c"
  "nodeMap (without_current_sources c) = nodeMap c"
  "voltageSources (without_current_sources c) = voltageSources c"
  "resistors (without_current_sources c) = resistors c"
  "conductances (without_current_sources c) = conductances c"
  by (simp_all add: without_current_sources_def unknown_nodes_def nodeMap_def voltageSources_def
        resistors_def conductances_def filter_without_current_sources)

lemma assemble_without_current_sources:
  "assemble F (without_current_sources c) = assemble F c"
  by (simp add: assemble_def without_current_sources_simps)

lemma c_type_component_result [simp]: "c_type (component_result c v x cp) = c_type cp"
  by (simp add: component_result_def Let_def)

lemma js_conductances_without_current_sources:
  "js_conductances (without_current_sources c) = js_conductances c"
  by (simp add: js_conductances_def without_current_sources_simps)

lemma js_assemble_without_current_sources:
  "js_assemble (without_current_sources c) = js_assemble c"
  by (simp add: js_assemble_def without_current_sources_simps
        js_conductances_without_current_sources)

lemma js_analyze_Success_D:
  assumes "js_analyzeNodalMethod c = JsSuccess v rs"
  shows "\<exists>x. v = js_node_voltages (unknown_nodes c) x \<and> rs = js_componentResults c v x"
  using assms
  by (auto simp: js_analyzeNodalMethod_def Let_def split: prod.splits option.splits if_splits)

lemma js_mul_zero: "js_abs (js_mul a (Number 0)) = (if is_finite a then Number 0 else NaN)"
  by (cases a) simp_all

lemma js_component_result_current_source:
  assumes "c_type cp = CurrentSource"
  shows "js_current (js_component_result c v x cp) = Number 0"
    and "js_power (js_component_result c v x cp) =
           (if is_finite (js_voltage (js_component_result c v x cp)) then Number 0 else NaN)"
  using assms by (simp_all add: js_component_result_def Let_def js_mul_zero)

lemma js_sub_NaN: "js_sub NaN b = NaN" "js_sub a NaN = NaN"
  by (cases a; simp add: js_sub_def)+

lemma js_node_voltages_dom:
  "dom (js_node_voltages (unknown_nodes c) x) = {t. terminal_declared c t}"
  unfolding js_node_voltages_def fold_update_dom set_indexed_ids
  by (auto simp: terminal_declared_def unknown_nodes_def)

lemma js_voltage_undeclared:
  assumes "\<not> terminal_declared c (fst (c_nodes cp)) \<or> \<not> terminal_declared c (snd (c_nodes cp))"
  shows "js_voltage (js_component_result c (js_node_voltages (unknown_nodes c) x) x' cp) = NaN"
proof -
  let ?v = "js_node_voltages (unknown_nodes c) x"
  from assms js_node_voltages_dom [of c x]
  have "?v (fst (c_nodes cp)) = None \<or> ?v (snd (c_nodes cp)) = None"
    by (auto simp: dom_def)
  then show ?thesis
    by (auto simp: js_component_result_def Let_def js_sub_NaN)
qed

lemma c_type_js_component_result: "c_type (js_component_result c v x cp) = c_type cp"
  by (simp add: js_component_result_def Let_def)

lemma c_nodes_js_component_result: "c_nodes (js_component_result c v x cp) = c_nodes cp"
  by (simp add: js_component_result_def Let_def)

lemma js_total_power_without_current_sources:
  "t \<noteq> CurrentSource \<Longrightarrow>
     js_total_power t (filter (\<lambda>r. c_type r \<noteq> CurrentSource) rs) = js_total_power t rs"
  by (simp add: js_total_power_def filter_without_current_sources)

text \<open>
  C9. Over JavaScript numbers, current sources contribute nothing to the assembled system:
  the matrix and the right-hand side are those of the circuit without its current sources.
  In the component results of a successful analysis every current source has current 0,
  and both power totals of the verification are the totals over the results that are not
  current sources. The power of a current source is \<^verbatim>\<open>Math.abs(voltage * 0)\<close>: it is 0
  when the voltage across the source is a finite number and NaN when it is not, and the
  voltage is NaN when a terminal of the source is not declared. In the circuit
  \<open>zero_ohm_link\<close>, whose terminals are all declared, the conductance of the resistor of
  0 ohms is Infinity, the solver leaves the potential of \<open>n1\<close> NaN, and the power of the
  current source is NaN.
\<close>

theorem current_sources_ignored:
  "js_assemble (without_current_sources c) = js_assemble c \<and>
   (js_analyzeNodalMethod c = JsSuccess v rs \<longrightarrow>
      (\<forall>r \<in> set rs. c_type r = CurrentSource \<longrightarrow>
         js_current r = Number 0 \<and>
         js_power r = (if is_finite (js_voltage r) then Number 0 else NaN) \<and>
         (\<not> terminal_declared c (fst (c_nodes r)) \<or> \<not> terminal_declared c (snd (c_nodes r))
            \<longrightarrow> js_voltage r = NaN)) \<and>
      js_totalPowerDissipated (filter (\<lambda>r. c_type r \<noteq> CurrentSource) rs)
        = js_totalPowerDissipated rs \<and>
      js_totalPowerSupplied (filter (\<lambda>r. c_type r \<noteq> CurrentSource) rs)
        = js_totalPowerSupplied rs)"
proof (intro conjI impI)
  show "js_assemble (without_current_sources c) = js_assemble c"
    by (rule js_assemble_without_current_sources)
next
  assume "js_analyzeNodalMethod c = JsSuccess v rs"
  then obtain x where v: "v = js_node_voltages (unknown_nodes c) x"
    and rs: "rs = js_componentResults c v x"
    using js_analyze_Success_D by blast
  show "\<forall>r \<in> set rs. c_type r = CurrentSource \<longrightarrow>
         js_current r = Number 0 \<and>
         js_power r = (if is_finite (js_voltage r) then Number 0 else NaN) \<and>
         (\<not> terminal_declared c (fst (c_nodes r)) \<or> \<not> terminal_declared c (snd (c_nodes r))
            \<longrightarrow> js_voltage r = NaN)"
  proof (intro ballI impI conjI)
    fix r assume r: "r \<in> set rs" and t: "c_type r = CurrentSource"
    from r obtain cp where cp: "r = js_component_result c v x cp"
      unfolding rs js_componentResults_def by auto
    from t have t': "c_type cp = CurrentSource"
      by (simp add: cp c_type_js_component_result)
    show "js_current r = Number 0"
      unfolding cp by (rule js_component_result_current_source(1) [OF t'])
    show "js_power r = (if is_finite (js_voltage r) then Number 0 else NaN)"
      unfolding cp by (rule js_component_result_current_source(2) [OF t'])
    assume "\<not> terminal_declared c (fst (c_nodes r)) \<or> \<not> terminal_declared c (snd (c_nodes r))"
    then have "\<not> terminal_declared c (fst (c_nodes cp)) \<or> \<not> terminal_declared c (snd (c_nodes cp))"
      by (simp add: cp c_nodes_js_component_result)
    then show "js_voltage r = NaN"
      unfolding cp v by (rule js_voltage_undeclared)
  qed
next
  show "js_totalPowerDissipated (filter (\<lambda>r. c_type r \<noteq> CurrentSource) rs)
          = js_totalPowerDissipated rs"
    by (simp add: js_totalPowerDissipated_def js_total_power_without_current_sources)
next
  show "js_totalPowerSupplied (filter (\<lambda>r. c_type r \<noteq> CurrentSource) rs)
          = js_totalPowerSupplied rs"
    by (simp add: js_totalPowerSupplied_def js_total_power_without_current_sources)
qed

text \<open>
  Two circuits with a current source. In \<open>with_current_source\<close> every number is finite, and
  the results over JavaScript numbers are those of the analysis over the reals. In
  \<open>undeclared_terminal\<close> the terminal \<open>n9\<close> of the current source is not declared.
\<close>

lemma with_current_source_js_results:
  "case js_analyzeNodalMethod with_current_source of
     JsSuccess v rs \<Rightarrow>
       map c_type rs = [VoltageSource, Resistor, Resistor, Resistor, CurrentSource] \<and>
       js_voltage (last rs) = Number (15 / 4)
   | _ \<Rightarrow> False"
  by code_simp

lemma with_current_source_agreement:
  "map_option (map (\<lambda>r. (js_voltage r, js_current r, js_power r)))
     (js_result_components (js_analyzeNodalMethod with_current_source))
   = map_option (map (\<lambda>r. (Number (voltage r), Number (current r), Number (r_power r))))
       (result_components (analyzeNodalMethod blank_fmt with_current_source))"
  by code_simp

lemma undeclared_terminal_js_results:
  "case js_analyzeNodalMethod undeclared_terminal of
     JsSuccess v rs \<Rightarrow>
       map c_type rs = [VoltageSource, Resistor, CurrentSource] \<and>
       c_nodes (last rs) = (''n1'', ''n9'')
   | _ \<Rightarrow> False"
  by code_simp

lemma undeclared_terminal_n9: "\<not> terminal_declared undeclared_terminal ''n9''"
  by code_simp

lemma last_of_types:
  assumes "map c_type rs = ts" and "ts \<noteq> []"
  shows "last rs \<in> set rs" and "c_type (last rs) = last ts"
proof -
  from assms have ne: "rs \<noteq> []" by auto
  then show "last rs \<in> set rs" by simp
  from ne have "c_type (last rs) = last (map c_type rs)" by (simp add: last_map)
  with assms show "c_type (last rs) = last ts" by simp
qed

theorem current_sources_ignored_witness:
  "(\<exists>v rs. js_analyzeNodalMethod with_current_source = JsSuccess v rs \<and>
      map c_type rs = [VoltageSource, Resistor, Resistor, Resistor, CurrentSource] \<and>
      js_voltage (last rs) = Number (15 / 4) \<and>
      js_current (last rs) = Number 0 \<and> js_power (last rs) = Number 0) \<and>
   (\<exists>v rs. js_analyzeNodalMethod undeclared_terminal = JsSuccess v rs \<and>
      map c_type rs = [VoltageSource, Resistor, CurrentSource] \<and>
      c_nodes (last rs) = (''n1'', ''n9'') \<and> \<not> terminal_declared undeclared_terminal ''n9'' \<and>
      js_voltage (last rs) = NaN \<and>
      js_current (last rs) = Number 0 \<and> js_power (last rs) = NaN)"
proof (rule conjI)
  from with_current_source_js_results obtain v rs where
    s: "js_analyzeNodalMethod with_current_source = JsSuccess v rs"
    and ty: "map c_type rs = [VoltageSource, Resistor, Resistor, Resistor, CurrentSource]"
    and vl: "js_voltage (last rs) = Number (15 / 4)"
    by (cases "js_analyzeNodalMethod with_current_source") auto
  from last_of_types [OF ty] have mem: "last rs \<in> set rs"
    and lt: "c_type (last rs) = CurrentSource"
    by simp_all
  from current_sources_ignored [of with_current_source v rs] s mem lt
  have "js_current (last rs) = Number 0"
    and "js_power (last rs) = (if is_finite (js_voltage (last rs)) then Number 0 else NaN)"
    by blast+
  with vl s ty show "\<exists>v rs. js_analyzeNodalMethod with_current_source = JsSuccess v rs \<and>
      map c_type rs = [VoltageSource, Resistor, Resistor, Resistor, CurrentSource] \<and>
      js_voltage (last rs) = Number (15 / 4) \<and>
      js_current (last rs) = Number 0 \<and> js_power (last rs) = Number 0"
    by auto
next
  from undeclared_terminal_js_results obtain v rs where
    s: "js_analyzeNodalMethod undeclared_terminal = JsSuccess v rs"
    and ty: "map c_type rs = [VoltageSource, Resistor, CurrentSource]"
    and nd: "c_nodes (last rs) = (''n1'', ''n9'')"
    by (cases "js_analyzeNodalMethod undeclared_terminal") auto
  from last_of_types [OF ty] have mem: "last rs \<in> set rs"
    and lt: "c_type (last rs) = CurrentSource"
    by simp_all
  from nd undeclared_terminal_n9
  have un: "\<not> terminal_declared undeclared_terminal (snd (c_nodes (last rs)))"
    by simp
  from current_sources_ignored [of undeclared_terminal v rs] s mem lt un
  have "js_current (last rs) = Number 0"
    and "js_power (last rs) = (if is_finite (js_voltage (last rs)) then Number 0 else NaN)"
    and "js_voltage (last rs) = NaN"
    by blast+
  with s ty nd undeclared_terminal_n9
  show "\<exists>v rs. js_analyzeNodalMethod undeclared_terminal = JsSuccess v rs \<and>
      map c_type rs = [VoltageSource, Resistor, CurrentSource] \<and>
      c_nodes (last rs) = (''n1'', ''n9'') \<and> \<not> terminal_declared undeclared_terminal ''n9'' \<and>
      js_voltage (last rs) = NaN \<and>
      js_current (last rs) = Number 0 \<and> js_power (last rs) = NaN"
    by auto
qed

text \<open>
  The circuit \<open>zero_ohm_link\<close>: the analysis returns component results, and the voltage and
  the power of the current source, the last component, are NaN.
\<close>

theorem current_sources_ignored_counterexample:
  "map c_nodes (circ_components zero_ohm_link)
     = [(''n1'', ''gnd''), (''n1'', ''n2''), (''n2'', ''n3''), (''n3'', ''gnd''), (''n1'', ''gnd'')] \<and>
   list_all (terminal_declared zero_ohm_link) [''n1'', ''n2'', ''n3'', ''gnd''] \<and>
   map_option (map c_type) (js_result_components (js_analyzeNodalMethod zero_ohm_link))
     = Some [VoltageSource, Resistor, Resistor, Resistor, CurrentSource] \<and>
   map_option (map js_voltage) (js_result_components (js_analyzeNodalMethod zero_ohm_link))
     = Some [NaN, NaN, NaN, Number 0, NaN] \<and>
   map_option (map js_current) (js_result_components (js_analyzeNodalMethod zero_ohm_link))
     = Some [Number (- (3 / 25)), NaN, NaN, Number 0, Number 0] \<and>
   map_option (map js_power) (js_result_components (js_analyzeNodalMethod zero_ohm_link))
     = Some [NaN, NaN, NaN, Number 0, NaN] \<and>
   NaN \<noteq> Number 0"
  by code_simp

subsection \<open>The mark of the energy balance\<close>

lemma balance_marks_differ: "balance_verified \<noteq> balance_review"
  by (simp add: balance_verified_def balance_review_def check_mark_def warning_sign_def)

lemma balance_marker_review_iff:
  "balance_marker rs = balance_review \<longleftrightarrow>
     1 / 1000 \<le> totalPowerSupplied rs - totalPowerDissipated rs"
  using balance_marks_differ by (auto simp: balance_marker_def)

lemma verification_last_line:
  "last (verificationEquations F rs) = balance_marker rs"
  by (simp add: verificationEquations_def)

text \<open>
  C3. The source compares the signed difference (supplied minus dissipated) with 0.001,
  not its absolute value. For the source of 100 kV across 100000 megaohms the analysis
  succeeds with 0 W supplied and 0.1 W dissipated, the absolute difference 0.1 exceeds
  0.001, and the last line of the verification is the mark of a verified balance.
\<close>

theorem balance_marker_high_voltage:
  "(case analyzeNodalMethod blank_fmt high_voltage of
      Failure e st \<Rightarrow> False
    | Success v rs st m \<Rightarrow>
        totalPowerSupplied rs = 0 \<and> totalPowerDissipated rs = 1 / 10 \<and>
        \<bar>totalPowerSupplied rs - totalPowerDissipated rs\<bar> > 1 / 1000 \<and>
        balance_marker rs = balance_verified \<and>
        map_option last (equations (last st)) = Some balance_verified)"
  by code_simp

subsection \<open>The ladder of the second example\<close>

lemmas assemble_eval =
  assemble_def unknown_nodes_def groundNode_def nodeMap_def indexed_def voltageSources_def
  conductances_def resistors_def convertToOhms_def conversions_def Omega_def new_Matrix_def
  node_equation_def stamp_conductance_def stamp_source_at_node_def source_equation_def
  terminal_index_def add_entry_def set_entry_def node_def component_def Let_def

lemmas solve_eval =
  solve_def augment_def indexed_def forward_elimination.simps pivot_round_def swap_pivot_def
  find_pivot_def eliminate_row_def back_substitution_def tolerance_def Let_def

lemma assemble_ejercicio2:
  "\<exists>eqs. assemble F ejercicio2 =
     (\<lparr>data = [[1 / 2000, - 1 / 2000, 1], [- 1 / 2000, 1 / 750, 0], [1, 0, 0]], rows = 3, cols = 3\<rparr>,
      [0, 0, 10], eqs)"
  by (simp add: ejercicio2_def assemble_eval upt_rec numeral_3_eq_3)

lemma solve_ejercicio2:
  "fst (solve F \<lparr>data = [[1 / 2000, - 1 / 2000, 1], [- 1 / 2000, 1 / 750, 0], [1, 0, 0]],
                 rows = 3, cols = 3\<rparr> [0, 0, 10]) = Some [10, 15 / 4, - 1 / 320]"
  by (simp add: solve_eval upt_rec numeral_3_eq_3)

lemma assemble_ladder_n3:
  "\<exists>eqs. assemble F ladder_n3 =
     (\<lparr>data = [[1 / 2000, - 1 / 2000, 0, 1], [- 1 / 2000, 1 / 750, 0, 0], [0, 0, 0, 0], [1, 0, 0, 0]],
       rows = 4, cols = 4\<rparr>,
      [0, 0, 0, 10], eqs)"
  by (simp add: ladder_n3_def ejercicio2_def assemble_eval upt_rec eval_nat_numeral)

lemma solve_ladder_n3:
  "fst (solve F \<lparr>data = [[1 / 2000, - 1 / 2000, 0, 1], [- 1 / 2000, 1 / 750, 0, 0], [0, 0, 0, 0], [1, 0, 0, 0]],
       rows = 4, cols = 4\<rparr> [0, 0, 0, 10]) = None"
  by (simp add: solve_eval upt_rec eval_nat_numeral)

lemma node_voltages_ejercicio2:
  "node_voltages (unknown_nodes ejercicio2) [a, b, i] = [''gnd'' \<mapsto> 0, ''n1'' \<mapsto> a, ''n2'' \<mapsto> b]"
  by (simp add: node_voltages_def unknown_nodes_def ejercicio2_def indexed_def groundNode_def
        node_def upt_rec)

text \<open>
  C2 (as amended). For the circuit with the nodes \<open>n1\<close>, \<open>n2\<close> and the ground (the
  exercise of the source, without a node \<open>n3\<close>), the analysis succeeds with 10 V at \<open>n1\<close>
  and, at \<open>n2\<close>, the value of the divider formed by the resistor of 2 kilo-ohms and the
  parallel of the resistors of 3 and 2 kilo-ohms, in exact arithmetic.
\<close>

theorem ladder_voltages:
  "\<exists>v. result_voltages (analyzeNodalMethod F ejercicio2) = Some v \<and>
       v ''n1'' = Some 10 \<and>
       v ''n2'' = Some (10 * parallel 3000 2000 / (2000 + parallel 3000 2000))"
proof -
  obtain eqs where a: "assemble F ejercicio2 =
     (\<lparr>data = [[1 / 2000, - 1 / 2000, 1], [- 1 / 2000, 1 / 750, 0], [1, 0, 0]], rows = 3, cols = 3\<rparr>,
      [0, 0, 10], eqs)"
    using assemble_ejercicio2 by blast
  obtain ss where s: "solve F \<lparr>data = [[1 / 2000, - 1 / 2000, 1], [- 1 / 2000, 1 / 750, 0], [1, 0, 0]],
                 rows = 3, cols = 3\<rparr> [0, 0, 10] = (Some [10, 15 / 4, - 1 / 320], ss)"
    using solve_ejercicio2 [of F] by (metis prod.collapse)
  have "result_voltages (analyzeNodalMethod F ejercicio2) =
          Some [''gnd'' \<mapsto> 0, ''n1'' \<mapsto> 10, ''n2'' \<mapsto> 15 / 4]"
    unfolding analyze_success [OF a s] by (simp add: node_voltages_ejercicio2)
  moreover have "10 * parallel 3000 2000 / (2000 + parallel 3000 2000) = (15 / 4 :: real)"
    by (simp add: parallel_def)
  ultimately show ?thesis by simp
qed

lemma ladder_n3_fails: "analyzeNodalMethod F ladder_n3 = Failure error_message (assembly_steps F ladder_n3)"
proof -
  obtain eqs where a: "assemble F ladder_n3 =
     (\<lparr>data = [[1 / 2000, - 1 / 2000, 0, 1], [- 1 / 2000, 1 / 750, 0, 0], [0, 0, 0, 0], [1, 0, 0, 0]],
       rows = 4, cols = 4\<rparr>,
      [0, 0, 0, 10], eqs)"
    using assemble_ladder_n3 by blast
  show ?thesis by (rule analyze_failure [OF a solve_ladder_n3])
qed

text \<open>
  C2 as stated fails: with the node \<open>n3\<close> declared and connected to nothing, the row and
  the column of \<open>n3\<close> are zero and the analysis returns the failure.
\<close>

theorem ladder_n3_counterexample:
  "\<not> succeeded (analyzeNodalMethod blank_fmt ladder_n3) \<and>
   result_voltages (analyzeNodalMethod blank_fmt ladder_n3) = None"
  by (simp add: ladder_n3_fails)

subsection \<open>The voltage divider of the first example\<close>

lemma solve_divider_large:
  assumes "1 < \<bar>r\<bar>" and "\<bar>r\<bar> < 1 / tolerance"
  shows "fst (solve F \<lparr>data = [[1 / r, 1], [1, 0]], rows = 2, cols = 2\<rparr> [0, 12]) = Some [12, - 12 / r]"
proof -
  from assms have r: "r \<noteq> 0" by auto
  from assms(1) have p: "\<bar>1 / r\<bar> < 1" by (simp add: field_simps)
  from assms have f: "tolerance < \<bar>1 / r\<bar>" by (simp add: field_simps tolerance_def)
  have t: "\<not> (1 :: real) < tolerance" "\<not> \<bar>1 :: real\<bar> < tolerance" by (simp_all add: tolerance_def)
  show ?thesis
    using p f t r
    by (simp add: solve_def augment_def indexed_def forward_elimination.simps pivot_round_def
          swap_pivot_def find_pivot_def eliminate_row_def back_substitution_def Let_def
          upt_rec numeral_2_eq_2)
qed

lemma solve_divider_small:
  assumes "tolerance < \<bar>r\<bar>" and "\<bar>r\<bar> \<le> 1"
  shows "fst (solve F \<lparr>data = [[1 / r, 1], [1, 0]], rows = 2, cols = 2\<rparr> [0, 12]) = Some [12, - 12 / r]"
proof -
  have t: "0 < tolerance" "tolerance < 1" by (simp_all add: tolerance_def)
  from assms t have r: "r \<noteq> 0" by auto
  from assms(2) r have p: "\<not> \<bar>1 / r\<bar> < 1" by (simp add: field_simps)
  with t have q: "\<not> \<bar>1 / r\<bar> < tolerance" by linarith
  from assms(1) have f: "\<not> \<bar>r\<bar> < tolerance" by simp
  show ?thesis
    using p q f r assms(1)
    by (simp add: solve_def augment_def indexed_def forward_elimination.simps pivot_round_def
          swap_pivot_def find_pivot_def eliminate_row_def back_substitution_def Let_def
          upt_rec numeral_2_eq_2)
qed

lemma solve_divider:
  assumes "tolerance < \<bar>r\<bar>" and "\<bar>r\<bar> < 1 / tolerance"
  shows "fst (solve F \<lparr>data = [[1 / r, 1], [1, 0]], rows = 2, cols = 2\<rparr> [0, 12]) = Some [12, - 12 / r]"
proof (cases "1 < \<bar>r\<bar>")
  case True
  then show ?thesis using assms(2) by (rule solve_divider_large)
next
  case False
  then have "\<bar>r\<bar> \<le> 1" by simp
  with assms(1) show ?thesis by (rule solve_divider_small)
qed

lemma is_divider_parts:
  assumes "is_divider c a R"
  shows "\<exists>n vs r. unknown_nodes c = [n] \<and> n_id n = a \<and> a \<noteq> groundNode \<and>
           voltageSources c = [vs] \<and> resistors c = [r] \<and> source_of_12V a vs \<and> resistor_of a R r \<and>
           (circ_components c = [vs, r] \<or> circ_components c = [r, vs])"
proof -
  from assms have a: "a \<noteq> groundNode"
    and ns: "map n_id (circ_nodes c) = [a, groundNode] \<or> map n_id (circ_nodes c) = [groundNode, a]"
    by (simp_all add: is_divider_def)
  from ns a obtain n where n: "unknown_nodes c = [n]" "n_id n = a"
    by (auto simp: unknown_nodes_def map_eq_Cons_conv)
  from assms obtain vs r where cs: "circ_components c = [vs, r] \<or> circ_components c = [r, vs]"
    and vs: "source_of_12V a vs" and r: "resistor_of a R r"
    by (auto simp: is_divider_def split: list.splits)
  from cs vs r have "voltageSources c = [vs]" "resistors c = [r]"
    by (auto simp: voltageSources_def resistors_def source_of_12V_def resistor_of_def)
  with n a vs r cs show ?thesis by blast
qed

lemma assemble_is_divider:
  assumes "unknown_nodes c = [n]" and "n_id n = a" and "a \<noteq> groundNode"
    and "voltageSources c = [vs]" and "resistors c = [r]"
    and "source_of_12V a vs" and "resistor_of a R r"
  shows "\<exists>eqs. assemble F c = (\<lparr>data = [[1 / R, 1], [1, 0]], rows = 2, cols = 2\<rparr>, [0, 12], eqs)"
  using assms(2,3,6,7)
  by (simp add: assemble_def assms(1,4,5) nodeMap_def conductances_def indexed_def new_Matrix_def
        node_equation_def stamp_conductance_def stamp_source_at_node_def source_equation_def
        terminal_index_def add_entry_def set_entry_def Let_def source_of_12V_def resistor_of_def
        upt_rec numeral_2_eq_2)

lemma node_voltages_single:
  "node_voltages [n] [u, i] = [groundNode \<mapsto> 0, n_id n \<mapsto> u]"
  by (simp add: node_voltages_def indexed_def)

lemma current_is_divider:
  assumes "unknown_nodes c = [n]" and "n_id n = a" and "a \<noteq> groundNode"
    and "voltageSources c = [vs]" and "source_of_12V a vs" and "resistor_of a R r"
  shows "current (component_result c [groundNode \<mapsto> 0, a \<mapsto> u] [u, i] vs) = i"
    and "current (component_result c [groundNode \<mapsto> 0, a \<mapsto> u] [u, i] r) = u / R"
  using assms(3,5,6)
  by (simp_all add: component_result_def assms(1,4) get_voltage_def source_of_12V_def
        resistor_of_def Let_def)

text \<open>
  C1 (as amended). For every circuit made of the ground and one other node \<open>a\<close>, a voltage
  source of 12 V and a resistor, both from \<open>a\<close> to the ground, with a resistance \<open>R\<close> in
  ohms whose absolute value lies strictly between the tolerance \<open>1e-10\<close> and its inverse
  \<open>1e10\<close>: the analysis succeeds, the potential of \<open>a\<close> is 12, the current of the source
  is \<open>- 12 / R\<close> and the current of the resistor is \<open>12 / R\<close>, in exact arithmetic.
\<close>

theorem divider_solution:
  assumes "is_divider c a R" and "tolerance < \<bar>R\<bar>" and "\<bar>R\<bar> < 1 / tolerance"
  shows "\<exists>v rs st m. analyzeNodalMethod F c = Success v rs st m \<and> v a = Some 12 \<and>
           (\<forall>x \<in> set rs. current x = (if c_type x = VoltageSource then - 12 / R else 12 / R))"
proof -
  from is_divider_parts [OF assms(1)]
  obtain n vs r where p: "unknown_nodes c = [n]" "n_id n = a" "a \<noteq> groundNode"
    "voltageSources c = [vs]" "resistors c = [r]" "source_of_12V a vs" "resistor_of a R r"
    and cs: "circ_components c = [vs, r] \<or> circ_components c = [r, vs]"
    by blast
  from assemble_is_divider [OF p] obtain eqs where a: "assemble F c =
      (\<lparr>data = [[1 / R, 1], [1, 0]], rows = 2, cols = 2\<rparr>, [0, 12], eqs)"
    by blast
  obtain ss where s: "solve F \<lparr>data = [[1 / R, 1], [1, 0]], rows = 2, cols = 2\<rparr> [0, 12]
      = (Some [12, - 12 / R], ss)"
    using solve_divider [OF assms(2,3), of F]
    by (cases "solve F \<lparr>data = [[1 / R, 1], [1, 0]], rows = 2, cols = 2\<rparr> [0, 12]") simp
  note cur = current_is_divider [OF p(1,2,3,4,6,7), of 12 "- 12 / R"]
  from p(6,7) have ty: "c_type vs = VoltageSource" "c_type r = Resistor"
    by (simp_all add: source_of_12V_def resistor_of_def)
  have "\<forall>x \<in> set (componentResults c [groundNode \<mapsto> 0, a \<mapsto> 12] [12, - 12 / R]).
          current x = (if c_type x = VoltageSource then - 12 / R else 12 / R)"
    using cs cur ty by (auto simp: componentResults_def)
  then show ?thesis
    unfolding analyze_success [OF a s]
    by (simp add: p(1) node_voltages_single p(2))
qed

theorem divider_solution_witness:
  "is_divider (divider 100) ''n1'' 100 \<and> tolerance < \<bar>100 :: real\<bar> \<and> \<bar>100 :: real\<bar> < 1 / tolerance \<and>
   (\<exists>v rs st m. analyzeNodalMethod blank_fmt (divider 100) = Success v rs st m \<and>
      v ''n1'' = Some 12 \<and>
      (\<forall>x \<in> set rs. current x = (if c_type x = VoltageSource then - 12 / 100 else 12 / 100)))"
proof -
  have d: "is_divider (divider 100) ''n1'' 100"
    by (simp add: is_divider_def divider_def node_def component_def source_of_12V_def
          resistor_of_def groundNode_def convertToOhms_def conversions_def Omega_def)
  have h: "tolerance < \<bar>100 :: real\<bar>" "\<bar>100 :: real\<bar> < 1 / tolerance"
    by (simp_all add: tolerance_def)
  from divider_solution [OF d h, of blank_fmt] d h show ?thesis by blast
qed

text \<open>
  C1 as stated fails. For a resistance of \<open>1e-11\<close> ohms the elimination factor is below
  the tolerance, the second pivot is 0 and the analysis returns the failure; for a
  resistance of \<open>1e11\<close> ohms the analysis succeeds with a source current of 0, which is
  not \<open>- 12 / r\<close>.
\<close>

theorem divider_counterexample:
  "\<not> succeeded (analyzeNodalMethod blank_fmt (divider (1 / 10 ^ 11))) \<and>
   map_option (map current) (result_components (analyzeNodalMethod blank_fmt (divider (10 ^ 11))))
     = Some [0, 12 / 10 ^ 11] \<and>
   (0 :: real) \<noteq> - 12 / 10 ^ 11"
  by code_simp

subsection \<open>The solver leaves the matrix of its caller unchanged\<close>

lemma find_pivot_less:
  assumes "i < n"
  shows "find_pivot aug i n < n"
proof -
  have "fold (\<lambda>k maxRow. if \<bar>aug ! k ! i\<bar> > \<bar>aug ! maxRow ! i\<bar> then k else maxRow) ks m < n"
    if "\<forall>k \<in> set ks. k < n" and "m < n" for ks m
    using that by (induction ks arbitrary: m) auto
  from this [of "[i + 1..<n]" i] assms show ?thesis
    by (simp add: find_pivot_def)
qed

lemma copy_above_rows:
  assumes "copy_above L n h aug"
  shows "\<exists>rs. h ! aug = Rows rs \<and> length rs = n \<and> aug \<notin> set rs \<and>
          (\<forall>r \<in> set rs. L \<le> r \<and> r < length h) \<and> L \<le> aug \<and> aug < length h"
  using assms by (auto simp: copy_above_def list_all_iff split: cell.splits)

lemma write_entry_frame:
  assumes "copy_above L n h aug" and "r < n"
  shows "take L (write_entry h aug r c v) = take L h \<and> copy_above L n (write_entry h aug r c v) aug"
proof -
  from copy_above_rows [OF assms(1)]
  obtain rs where rs: "h ! aug = Rows rs" "length rs = n" "aug \<notin> set rs"
    and above: "\<forall>r \<in> set rs. L \<le> r \<and> r < length h" and aug: "L \<le> aug" "aug < length h"
    by blast
  let ?ra = "rs ! r"
  from assms(2) rs have mem: "?ra \<in> set rs" by simp
  with above rs have ra: "L \<le> ?ra" "?ra < length h" "?ra \<noteq> aug" by auto
  have w: "write_entry h aug r c v = h[?ra := Numbers ((numbers_at h ?ra)[c := v])]"
    by (simp add: write_entry_def rows_at_def rs Let_def)
  have "take L (write_entry h aug r c v) = take L h"
    using ra by (simp add: w)
  moreover have "copy_above L n (write_entry h aug r c v) aug"
    using ra rs above aug by (auto simp: w copy_above_def list_all_iff)
  ultimately show ?thesis ..
qed

lemma store_eliminate_row_frame:
  assumes "copy_above L n h aug" and "k < n"
  shows "take L (fst (store_eliminate_row F aug i n k (h, st))) = take L h \<and>
         copy_above L n (fst (store_eliminate_row F aug i n k (h, st))) aug"
proof -
  let ?f = "\<lambda>j g. write_entry g aug k j
              (read_entry g aug k j - read_entry h aug k i / read_entry h aug i i * read_entry g aug i j)"
  have "take L (fold ?f js h) = take L h \<and> copy_above L n (fold ?f js h) aug" for js
    by (rule fold_invariant [where I = "\<lambda>g. take L g = take L h \<and> copy_above L n g aug"])
       (use assms write_entry_frame in auto)
  then show ?thesis
    using assms by (simp add: store_eliminate_row_def Let_def)
qed

lemma store_pivot_round_frame:
  assumes "copy_above L n h aug" and "i < n"
  shows "case store_pivot_round F aug i n h st of
           Inl (st', h') \<Rightarrow> take L h' = take L h \<and> copy_above L n h' aug
         | Inr (h', st') \<Rightarrow> take L h' = take L h \<and> copy_above L n h' aug"
proof -
  from copy_above_rows [OF assms(1)]
  obtain rs where rs: "h ! aug = Rows rs" "length rs = n" "aug \<notin> set rs"
    and above: "\<forall>r \<in> set rs. L \<le> r \<and> r < length h" and aug: "L \<le> aug" "aug < length h"
    by blast
  let ?m = "find_pivot (read_rows h aug) i n"
  let ?sw = "if ?m \<noteq> i
             then let rs = rows_at h aug; h' = h[aug := Rows (rs[i := rs ! ?m, ?m := rs ! i])]
                  in (h', st @ [(swap_title i ?m, formatAugmented F (read_rows h' aug))])
             else (h, st)"
  have m: "?m < n" using assms(2) by (rule find_pivot_less)
  have "set (rs[i := rs ! ?m, ?m := rs ! i]) \<subseteq> set rs"
  proof -
    from m assms(2) rs(2) have "rs ! ?m \<in> set rs" and "rs ! i \<in> set rs" by simp_all
    moreover have "set (rs[i := rs ! ?m, ?m := rs ! i]) \<subseteq> insert (rs ! i) (insert (rs ! ?m) (set rs))"
      using set_update_subset_insert [of "rs[i := rs ! ?m]" ?m "rs ! i"]
        set_update_subset_insert [of rs i "rs ! ?m"] by blast
    ultimately show ?thesis by blast
  qed
  with rs above aug
  have sw: "take L (fst ?sw) = take L h \<and> copy_above L n (fst ?sw) aug"
    by (auto simp: copy_above_def list_all_iff rows_at_def Let_def)
  have el: "take L (fst (fold (store_eliminate_row F aug i n) ks s)) = take L h \<and>
        copy_above L n (fst (fold (store_eliminate_row F aug i n) ks s)) aug"
    if "\<forall>k \<in> set ks. k < n" and "take L (fst s) = take L h \<and> copy_above L n (fst s) aug" for ks s
    using that
  proof (induction ks arbitrary: s)
    case Nil
    then show ?case by simp
  next
    case (Cons k ks)
    obtain g t where s: "s = (g, t)" by (cases s)
    from Cons.prems s store_eliminate_row_frame [of L n g aug k F i t]
    have "take L (fst (store_eliminate_row F aug i n k s)) = take L h \<and>
          copy_above L n (fst (store_eliminate_row F aug i n k s)) aug"
      by auto
    with Cons.IH [of "store_eliminate_row F aug i n k s"] Cons.prems(1) show ?case by simp
  qed
  show ?thesis
    using sw el [of "[i + 1..<n]" ?sw]
    by (auto simp: store_pivot_round_def Let_def split: sum.splits prod.splits)
qed

lemma store_forward_elimination_frame:
  assumes "copy_above L n h aug"
  shows "case store_forward_elimination F aug i n h st of
           Inl (st', h') \<Rightarrow> take L h' = take L h \<and> copy_above L n h' aug
         | Inr (h', st') \<Rightarrow> take L h' = take L h \<and> copy_above L n h' aug"
  using assms
proof (induction F aug i n h st rule: store_forward_elimination.induct)
  case (1 F aug i n h steps)
  show ?case
  proof (cases "i < n")
    case False
    with "1.prems" show ?thesis
      by (subst store_forward_elimination.simps) simp
  next
    case True
    note round = store_pivot_round_frame [OF "1.prems" True, of F steps]
    show ?thesis
    proof (cases "store_pivot_round F aug i n h steps")
      case (Inl failed)
      with round True show ?thesis
        by (subst store_forward_elimination.simps) (simp split: prod.splits)
    next
      case (Inr p)
      obtain h' steps' where p: "p = (h', steps')" by (cases p)
      from round Inr p have h': "take L h' = take L h" "copy_above L n h' aug" by simp_all
      from "1.IH" [OF True Inr p [symmetric] h'(2)] h'(1) True Inr p show ?thesis
        by (subst store_forward_elimination.simps) (simp split: sum.splits prod.splits)
    qed
  qed
qed

lemma copy_rows_fold:
  assumes "take L g = h" and "length h = L" and "length g = L + length acc"
    and "\<forall>r \<in> set acc. L \<le> r \<and> r < length g"
  shows "case fold (\<lambda>(r, i) (h', acc). (h' @ [Numbers (numbers_at h' r @ [b ! i])], acc @ [length h']))
                xs (g, acc) of
           (g', acc') \<Rightarrow> take L g' = h \<and> length g' = L + length acc' \<and>
              length acc' = length acc + length xs \<and> (\<forall>r \<in> set acc'. L \<le> r \<and> r < length g')"
  using assms
proof (induction xs arbitrary: g acc)
  case Nil
  then show ?case by simp
next
  case (Cons x xs)
  obtain r i where x: "x = (r, i)" by (cases x)
  let ?g = "g @ [Numbers (numbers_at g r @ [b ! i])]" and ?acc = "acc @ [length g]"
  from Cons.prems have "take L ?g = h" "length ?g = L + length ?acc"
    "\<forall>r \<in> set ?acc. L \<le> r \<and> r < length ?g"
    by auto
  from Cons.IH [OF this(1) Cons.prems(2) this(2,3)] show ?case
    by (simp add: x)
qed

lemma copy_augmented_frame:
  assumes "copy_augmented h d b = (h0, aug)"
  shows "take (length h) h0 = h \<and> copy_above (length h) (length (rows_at h d)) h0 aug"
proof -
  obtain g acc where st:
    "fold (\<lambda>(r, i) (h', acc). (h' @ [Numbers (numbers_at h' r @ [b ! i])], acc @ [length h']))
       (indexed (rows_at h d)) (h, []) = (g, acc)"
    by (cases "fold (\<lambda>(r, i) (h', acc). (h' @ [Numbers (numbers_at h' r @ [b ! i])], acc @ [length h']))
       (indexed (rows_at h d)) (h, [])")
  from copy_rows_fold [where L = "length h" and g = h and h = h and acc = "[]" and b = b
      and xs = "indexed (rows_at h d)"] st
  have f: "take (length h) g = h" "length g = length h + length acc"
    "length acc = length (rows_at h d)" "\<forall>r \<in> set acc. length h \<le> r \<and> r < length g"
    by (auto simp: indexed_def)
  from assms st have h0: "h0 = g @ [Rows acc]" and aug: "aug = length g"
    by (simp_all add: copy_augmented_def alloc_def Let_def)
  from f have "take (length h) h0 = h"
    by (simp add: h0)
  moreover from f have "copy_above (length h) (length (rows_at h d)) h0 aug"
    by (auto simp: copy_above_def h0 aug list_all_iff nth_append)
  ultimately show ?thesis ..
qed

lemma store_solve_frame:
  assumes "matrix_in_store h M"
  shows "take (length h) (snd (store_solve F M b h)) = h"
proof -
  obtain h0 aug where c: "copy_augmented h (ref_data M) b = (h0, aug)"
    by (cases "copy_augmented h (ref_data M) b")
  from assms have n: "length (rows_at h (ref_data M)) = ref_rows M"
    by (auto simp: matrix_in_store_def rows_at_def split: cell.splits)
  from copy_augmented_frame [OF c] n
  have 0: "take (length h) h0 = h" and a: "copy_above (length h) (ref_rows M) h0 aug"
    by simp_all
  from store_forward_elimination_frame [OF a, of F 0 "[initial_record F (read_rows h0 aug)]"] 0
  show ?thesis
    by (auto simp: store_solve_def c Let_def split: sum.splits prod.splits)
qed

lemma matrix_of_frame:
  assumes "matrix_in_store h M" and "take (length h) h' = h"
  shows "matrix_of h' M = matrix_of h M"
proof -
  have eq: "h' ! a = h ! a" if "a < length h" for a
    using that assms(2) by (metis nth_take)
  from assms(1) obtain rs where d: "ref_data M < length h" and rs: "h ! ref_data M = Rows rs"
    and in_store: "\<forall>r \<in> set rs. r < length h"
    by (auto simp: matrix_in_store_def list_all_iff split: cell.splits)
  from d rs have "rows_at h' (ref_data M) = rs" "rows_at h (ref_data M) = rs"
    by (simp_all add: rows_at_def eq)
  moreover from in_store have "map (numbers_at h') rs = map (numbers_at h) rs"
    by (simp add: numbers_at_def eq)
  ultimately show ?thesis
    by (simp add: matrix_of_def read_rows_def)
qed

subsection \<open>The stamps of the resistors\<close>

lemma square_of_size_iff:
  "square_of_size M n \<longleftrightarrow> length (data M) = n \<and> (\<forall>i < n. length (data M ! i) = n)"
  by (auto simp: square_of_size_def list_all_length)

lemma length_row_update:
  "i < length xs \<Longrightarrow> length (xs[r := (xs ! r)[c := v]] ! i) = length (xs ! i)"
  by (cases "i = r") simp_all

lemma square_add_entry [simp]: "square_of_size (add_entry M r c v) n = square_of_size M n"
  by (simp add: square_of_size_iff add_entry_def length_row_update cong: conj_cong)

lemma square_set_entry [simp]: "square_of_size (set_entry M r c v) n = square_of_size M n"
  by (simp add: square_of_size_iff set_entry_def length_row_update cong: conj_cong)

lemma get_add_entry:
  assumes "square_of_size M n" and "r < n" and "c < n"
  shows "get_entry (add_entry M r c v) r' c' =
           (if r' = r \<and> c' = c then get_entry M r c + v else get_entry M r' c')"
  using assms by (auto simp: square_of_size_iff add_entry_def get_entry_def nth_list_update)

lemma get_set_entry:
  assumes "square_of_size M n" and "r < n" and "c < n"
  shows "get_entry (set_entry M r c v) r' c' = (if r' = r \<and> c' = c then v else get_entry M r' c')"
  using assms by (auto simp: square_of_size_iff set_entry_def get_entry_def nth_list_update)

lemma get_new_Matrix: "r < n \<Longrightarrow> c < n \<Longrightarrow> get_entry (new_Matrix n n 0) r c = 0"
  by (simp add: new_Matrix_def get_entry_def)

lemma square_new_Matrix: "square_of_size (new_Matrix n n 0) n"
  by (simp add: new_Matrix_def square_of_size_iff)

lemma stamp_conductance_entry:
  assumes "square_of_size A n" and "idx < n" and "\<forall>x j. nmap x = Some j \<longrightarrow> j < n"
  shows "square_of_size (fst (stamp_conductance nmap nd idx c (A, t))) n \<and>
         get_entry (fst (stamp_conductance nmap nd idx c (A, t))) r col =
           get_entry A r col + (if r = idx then conductance_stamp nmap (n_id nd) idx col c else 0)"
proof (cases "fst (c_nodes c) = n_id nd \<or> snd (c_nodes c) = n_id nd")
  case False
  with assms(1) show ?thesis
    by (simp add: stamp_conductance_def conductance_stamp_def Let_def)
next
  case touches: True
  define other where "other = (if fst (c_nodes c) = n_id nd then snd (c_nodes c) else fst (c_nodes c))"
  let ?A1 = "add_entry A idx idx (cond_G c)"
  from assms have A1: "square_of_size ?A1 n"
    and g1: "get_entry ?A1 r col = get_entry A r col + (if r = idx \<and> col = idx then cond_G c else 0)"
    by (simp_all add: get_add_entry)
  show ?thesis
  proof (cases "other \<noteq> groundNode \<and> nmap other \<noteq> None")
    case False
    then have "fst (stamp_conductance nmap nd idx c (A, t)) = ?A1"
      using touches by (auto simp: stamp_conductance_def Let_def other_def split: option.splits)
    moreover from False touches
    have "conductance_stamp nmap (n_id nd) idx col c = (if col = idx then cond_G c else 0)"
      by (auto simp: conductance_stamp_def Let_def other_def)
    ultimately show ?thesis using A1 g1 by simp
  next
    case True
    then obtain j where j: "nmap other = Some j" and ng: "other \<noteq> groundNode" by auto
    with assms(3) have jn: "j < n" by blast
    from j ng touches
    have "fst (stamp_conductance nmap nd idx c (A, t)) = add_entry ?A1 idx j (- cond_G c)"
      by (simp add: stamp_conductance_def Let_def other_def)
    moreover from j ng touches
    have "conductance_stamp nmap (n_id nd) idx col c =
            (if col = idx then cond_G c else 0) + (if j = col then - cond_G c else 0)"
      by (simp add: conductance_stamp_def Let_def other_def)
    ultimately show ?thesis
      using A1 g1 get_add_entry [OF A1 assms(2) jn, of "- cond_G c" r col] by auto
  qed
qed

lemma fold_stamp_conductance_entry:
  assumes "square_of_size A n" and "idx < n" and "\<forall>x j. nmap x = Some j \<longrightarrow> j < n"
  shows "square_of_size (fst (fold (stamp_conductance nmap nd idx) cs (A, t))) n \<and>
         get_entry (fst (fold (stamp_conductance nmap nd idx) cs (A, t))) r col =
           get_entry A r col +
           (if r = idx then sum_list (map (conductance_stamp nmap (n_id nd) idx col) cs) else 0)"
  using assms(1)
proof (induction cs arbitrary: A t)
  case Nil
  then show ?case by simp
next
  case (Cons c cs)
  obtain A' t' where st: "stamp_conductance nmap nd idx c (A, t) = (A', t')"
    by (cases "stamp_conductance nmap nd idx c (A, t)")
  from stamp_conductance_entry [OF Cons.prems assms(2,3), of nd c t] st
  have sq: "square_of_size A' n"
    and e: "get_entry A' r col =
              get_entry A r col + (if r = idx then conductance_stamp nmap (n_id nd) idx col c else 0)"
    by simp_all
  from Cons.IH [OF sq, of t'] e show ?case
    by (simp add: st)
qed

lemma stamp_source_entry:
  assumes "square_of_size A n" and "idx < n" and "k + snd vsi < n"
  shows "square_of_size (fst (stamp_source_at_node k nd idx vsi (A, t))) n \<and>
         (col < k \<longrightarrow> get_entry (fst (stamp_source_at_node k nd idx vsi (A, t))) r col = get_entry A r col)"
  using assms by (auto simp: stamp_source_at_node_def Let_def get_set_entry)

lemma fold_stamp_source_entry:
  assumes "square_of_size A n" and "idx < n" and "\<forall>vsi \<in> set vsis. k + snd vsi < n"
  shows "square_of_size (fst (fold (stamp_source_at_node k nd idx) vsis (A, t))) n \<and>
         (col < k \<longrightarrow> get_entry (fst (fold (stamp_source_at_node k nd idx) vsis (A, t))) r col
                        = get_entry A r col)"
  using assms(1,3)
proof (induction vsis arbitrary: A t)
  case Nil
  then show ?case by simp
next
  case (Cons v vs)
  obtain A' t' where st: "stamp_source_at_node k nd idx v (A, t) = (A', t')"
    by (cases "stamp_source_at_node k nd idx v (A, t)")
  from Cons.prems have "k + snd v < n" by simp
  from stamp_source_entry [OF Cons.prems(1) assms(2) this, of nd t col r] st
  have sq: "square_of_size A' n" and e: "col < k \<longrightarrow> get_entry A' r col = get_entry A r col"
    by simp_all
  from Cons.prems have "\<forall>vsi \<in> set vs. k + snd vsi < n" by simp
  from Cons.IH [OF sq this, of t'] e show ?case
    by (simp add: st)
qed

lemma node_equation_entry:
  assumes "square_of_size A n" and "snd ni < n" and "\<forall>x j. nmap x = Some j \<longrightarrow> j < n"
    and "n = k + length vss" and "col < k"
  shows "square_of_size (fst (node_equation nmap k conds vss ni (A, eqs))) n \<and>
         get_entry (fst (node_equation nmap k conds vss ni (A, eqs))) r col =
           get_entry A r col +
           (if r = snd ni
            then sum_list (map (conductance_stamp nmap (n_id (fst ni)) (snd ni) col) conds) else 0)"
proof -
  obtain A1 t1 where st1: "fold (stamp_conductance nmap (fst ni) (snd ni)) conds (A, []) = (A1, t1)"
    by (cases "fold (stamp_conductance nmap (fst ni) (snd ni)) conds (A, [])")
  from fold_stamp_conductance_entry [OF assms(1,2,3), of "fst ni" conds "[]" r col] st1
  have sq1: "square_of_size A1 n"
    and e1: "get_entry A1 r col = get_entry A r col +
           (if r = snd ni
            then sum_list (map (conductance_stamp nmap (n_id (fst ni)) (snd ni) col) conds) else 0)"
    by simp_all
  have "\<forall>vsi \<in> set (indexed vss). k + snd vsi < n"
    using assms(4) by (auto dest: indexed_snd_less)
  from fold_stamp_source_entry [OF sq1 assms(2) this, of "fst ni" t1 col r] assms(5)
  have "square_of_size (fst (fold (stamp_source_at_node k (fst ni) (snd ni)) (indexed vss) (A1, t1))) n"
    and "get_entry (fst (fold (stamp_source_at_node k (fst ni) (snd ni)) (indexed vss) (A1, t1))) r col
          = get_entry A1 r col"
    by simp_all
  with e1 show ?thesis
    by (simp add: node_equation_def Let_def st1)
qed

lemma fold_node_equation_entry:
  assumes "square_of_size A n" and "\<forall>ni \<in> set nis. snd ni < n"
    and "\<forall>x j. nmap x = Some j \<longrightarrow> j < n" and "n = k + length vss" and "col < k"
  shows "square_of_size (fst (fold (node_equation nmap k conds vss) nis (A, eqs))) n \<and>
         get_entry (fst (fold (node_equation nmap k conds vss) nis (A, eqs))) r col =
           get_entry A r col +
           sum_list (map (\<lambda>ni. if r = snd ni
              then sum_list (map (conductance_stamp nmap (n_id (fst ni)) (snd ni) col) conds)
              else 0) nis)"
  using assms(1,2)
proof (induction nis arbitrary: A eqs)
  case Nil
  then show ?case by simp
next
  case (Cons ni nis)
  obtain A' eqs' where st: "node_equation nmap k conds vss ni (A, eqs) = (A', eqs')"
    by (cases "node_equation nmap k conds vss ni (A, eqs)")
  from Cons.prems have "snd ni < n" by simp
  from node_equation_entry [OF Cons.prems(1) this assms(3,4,5), of conds eqs r] st
  have sq: "square_of_size A' n"
    and e: "get_entry A' r col = get_entry A r col +
           (if r = snd ni
            then sum_list (map (conductance_stamp nmap (n_id (fst ni)) (snd ni) col) conds) else 0)"
    by simp_all
  from Cons.prems have "\<forall>ni \<in> set nis. snd ni < n" by simp
  from Cons.IH [OF sq this, of eqs'] e show ?case
    by (simp add: st)
qed

lemma source_equation_entry:
  assumes "square_of_size A n" and "k + snd vsi < n" and "\<forall>x j. nmap x = Some j \<longrightarrow> j < n"
  shows "square_of_size (fst (source_equation F nmap k vsi (A, b, eqs))) n \<and>
         (r < k \<longrightarrow> get_entry (fst (source_equation F nmap k vsi (A, b, eqs))) r col = get_entry A r col)"
proof -
  have t: "terminal_index nmap x = Some j \<Longrightarrow> j < n" for x j
    using assms(3) by (auto simp: terminal_index_def split: if_splits)
  show ?thesis
  proof (cases "terminal_index nmap (fst (c_nodes (fst vsi)))")
    case None
    note pos = this
    show ?thesis
    proof (cases "terminal_index nmap (snd (c_nodes (fst vsi)))")
      case None
      with pos assms(1) show ?thesis
        by (simp add: source_equation_def Let_def)
    next
      case (Some m)
      with pos assms(1,2) t [OF Some] show ?thesis
        by (simp add: source_equation_def Let_def get_set_entry)
    qed
  next
    case (Some p)
    note pos = this
    show ?thesis
    proof (cases "terminal_index nmap (snd (c_nodes (fst vsi)))")
      case None
      with pos assms(1,2) t [OF pos] show ?thesis
        by (simp add: source_equation_def Let_def get_set_entry)
    next
      case (Some m)
      with pos assms(1,2) t [OF pos] t [OF Some] show ?thesis
        by (simp add: source_equation_def Let_def get_set_entry)
    qed
  qed
qed

lemma fold_source_equation_entry:
  assumes "square_of_size A n" and "\<forall>vsi \<in> set vsis. k + snd vsi < n"
    and "\<forall>x j. nmap x = Some j \<longrightarrow> j < n"
  shows "square_of_size (fst (fold (source_equation F nmap k) vsis (A, b, eqs))) n \<and>
         (r < k \<longrightarrow> get_entry (fst (fold (source_equation F nmap k) vsis (A, b, eqs))) r col
                      = get_entry A r col)"
  using assms(1,2)
proof (induction vsis arbitrary: A b eqs)
  case Nil
  then show ?case by simp
next
  case (Cons v vs)
  obtain A' b' eqs' where st: "source_equation F nmap k v (A, b, eqs) = (A', b', eqs')"
    by (cases "source_equation F nmap k v (A, b, eqs)")
  from Cons.prems have "k + snd v < n" by simp
  from source_equation_entry [OF Cons.prems(1) this assms(3), of F b eqs r col] st
  have sq: "square_of_size A' n" and e: "r < k \<longrightarrow> get_entry A' r col = get_entry A r col"
    by simp_all
  from Cons.prems have "\<forall>vsi \<in> set vs. k + snd vsi < n" by simp
  from Cons.IH [OF sq this, of b' eqs'] e show ?case
    by (simp add: st)
qed

lemma indexed_snoc: "indexed (xs @ [y]) = indexed xs @ [(y, length xs)]"
  by (simp add: indexed_def)

lemma nodeMap_fold_iff:
  assumes "distinct (map n_id xs)"
  shows "fold (\<lambda>(n, i) m. m(n_id n \<mapsto> i)) (indexed xs) Map.empty x = Some j \<longleftrightarrow>
           j < length xs \<and> n_id (xs ! j) = x"
  using assms
proof (induction xs rule: rev_induct)
  case Nil
  then show ?case by (simp add: indexed_def)
next
  case (snoc y xs)
  from snoc.prems have d: "distinct (map n_id xs)" and new: "n_id y \<notin> n_id ` set xs"
    by simp_all
  show ?case
  proof (cases "x = n_id y")
    case True
    with new have "\<not> (j < length xs \<and> n_id (xs ! j) = x)"
      by (metis imageI nth_mem)
    with True show ?thesis
      by (auto simp: indexed_snoc nth_append less_Suc_eq)
  next
    case False
    with snoc.IH [OF d] show ?thesis
      by (auto simp: indexed_snoc nth_append less_Suc_eq)
  qed
qed

lemma distinct_unknown_nodes:
  "distinct_node_ids c \<Longrightarrow> distinct (map n_id (unknown_nodes c))"
  by (simp add: distinct_node_ids_def unknown_nodes_def distinct_map_filter)

lemma nodeMap_iff:
  assumes "distinct_node_ids c"
  shows "nodeMap c x = Some j \<longleftrightarrow> j < length (unknown_nodes c) \<and> n_id (unknown_nodes c ! j) = x"
  unfolding nodeMap_def by (rule nodeMap_fold_iff) (rule distinct_unknown_nodes [OF assms])

lemma sum_list_indexed_delta:
  "sum_list (map (\<lambda>ni. if r = snd ni then f ni else (0 :: real)) (indexed xs)) =
     (if r < length xs then f (xs ! r, r) else 0)"
proof (induction xs rule: rev_induct)
  case Nil
  then show ?case by (simp add: indexed_def)
next
  case (snoc y xs)
  then show ?case
    by (auto simp: indexed_snoc nth_append)
qed

lemma sum_list_if_neg:
  "sum_list (map (\<lambda>c. if P c then - g c else (0 :: real)) cs) = - sum_list (map g (filter P cs))"
  by (induction cs) auto

lemma sum_list_if_pos:
  "sum_list (map (\<lambda>c. if P c then g c else (0 :: real)) cs) = sum_list (map g (filter P cs))"
  by (induction cs) auto

lemma assemble_entry:
  assumes "distinct_node_ids c" and "assemble F c = (A, bv, eqs)"
    and "a < length (unknown_nodes c)" and "col < length (unknown_nodes c)"
  shows "get_entry A a col =
           sum_list (map (conductance_stamp (nodeMap c) (n_id (unknown_nodes c ! a)) a col)
                      (conductances c))"
proof -
  let ?k = "length (unknown_nodes c)" and ?vss = "voltageSources c"
  let ?n = "?k + length ?vss"
  have range: "\<forall>x j. nodeMap c x = Some j \<longrightarrow> j < ?n"
    by (auto simp: nodeMap_iff [OF assms(1)])
  have idx: "\<forall>ni \<in> set (indexed (unknown_nodes c)). snd ni < ?n"
    by (auto dest: indexed_snd_less)
  have vs: "\<forall>vsi \<in> set (indexed ?vss). ?k + snd vsi < ?n"
    by (auto dest: indexed_snd_less)
  obtain A1 eqs1 where st1:
    "fold (node_equation (nodeMap c) ?k (conductances c) ?vss) (indexed (unknown_nodes c))
       (new_Matrix ?n ?n 0, []) = (A1, eqs1)"
    by (cases "fold (node_equation (nodeMap c) ?k (conductances c) ?vss) (indexed (unknown_nodes c))
       (new_Matrix ?n ?n 0, [])")
  from fold_node_equation_entry [OF square_new_Matrix idx range refl assms(4),
      of "conductances c" "[]" a] st1 assms(3,4)
  have sq1: "square_of_size A1 ?n"
    and e1: "get_entry A1 a col =
      sum_list (map (conductance_stamp (nodeMap c) (n_id (unknown_nodes c ! a)) a col) (conductances c))"
    by (simp_all add: sum_list_indexed_delta get_new_Matrix)
  from assms(2) st1
  have A: "A = fst (fold (source_equation F (nodeMap c) ?k) (indexed ?vss) (A1, replicate ?n 0, eqs1))"
    by (simp add: assemble_def Let_def)
  from fold_source_equation_entry [OF sq1 vs range, of F "replicate ?n 0" eqs1 a col] assms(3)
  have "get_entry A a col = get_entry A1 a col"
    by (simp add: A)
  with e1 show ?thesis by simp
qed

lemma sum_list_filter_split:
  assumes "\<forall>r. Q r \<longrightarrow> P r"
  shows "sum_list (map g (filter P cs)) =
           sum_list (map g (filter Q cs)) + (sum_list (map g (filter (\<lambda>r. P r \<and> \<not> Q r) cs)) :: real)"
  using assms by (induction cs) auto

lemma conductance_at_split:
  assumes "x \<noteq> y"
  shows "conductance_at c x = conductance_between c x y + conductance_elsewhere c x y"
  unfolding conductance_at_def conductance_between_def conductance_elsewhere_def
  by (rule sum_list_filter_split) (use assms in auto)

text \<open>
  C5. In a circuit with distinct node identifiers, for two different unknown nodes \<open>a\<close> and
  \<open>b\<close> the entries \<open>A[a][b]\<close> and \<open>A[b][a]\<close> of the assembled matrix are both minus the sum
  of the conductances of the resistors between the two nodes, and each of the diagonal
  entries \<open>A[a][a]\<close> and \<open>A[b][b]\<close> is the sum of the conductances of the resistors with
  exactly one terminal at the node: the sum over the resistors between \<open>a\<close> and \<open>b\<close> plus
  the sum over the other resistors at the node.
\<close>

theorem stamping_symmetry:
  assumes "distinct_node_ids c" and "assemble F c = (A, bv, eqs)"
    and "a < length (unknown_nodes c)" and "b < length (unknown_nodes c)" and "a \<noteq> b"
  shows "get_entry A a b
           = - conductance_between c (n_id (unknown_nodes c ! a)) (n_id (unknown_nodes c ! b)) \<and>
         get_entry A b a = get_entry A a b \<and>
         get_entry A a a = conductance_at c (n_id (unknown_nodes c ! a)) \<and>
         get_entry A b b = conductance_at c (n_id (unknown_nodes c ! b)) \<and>
         conductance_at c (n_id (unknown_nodes c ! a))
           = conductance_between c (n_id (unknown_nodes c ! a)) (n_id (unknown_nodes c ! b))
             + conductance_elsewhere c (n_id (unknown_nodes c ! a)) (n_id (unknown_nodes c ! b)) \<and>
         conductance_at c (n_id (unknown_nodes c ! b))
           = conductance_between c (n_id (unknown_nodes c ! a)) (n_id (unknown_nodes c ! b))
             + conductance_elsewhere c (n_id (unknown_nodes c ! b)) (n_id (unknown_nodes c ! a))"
proof -
  let ?ns = "unknown_nodes c"
  have off: "get_entry A i j = - conductance_between c (n_id (?ns ! i)) (n_id (?ns ! j))"
    and diag: "get_entry A i i = conductance_at c (n_id (?ns ! i))"
    if i: "i < length ?ns" and j: "j < length ?ns" and ne: "i \<noteq> j" for i j
  proof -
    let ?x = "n_id (?ns ! i)" and ?y = "n_id (?ns ! j)"
    from nth_eq_iff_index_eq [OF distinct_unknown_nodes [OF assms(1)], of i j] i j ne
    have xy: "?x \<noteq> ?y"
      by simp
    from i j have g: "?x \<noteq> groundNode" "?y \<noteq> groundNode"
      using unknown_nodes_not_ground [OF nth_mem, of i c] unknown_nodes_not_ground [OF nth_mem, of j c]
      by simp_all
    have my: "nodeMap c z = Some j \<longleftrightarrow> z = ?y" for z
      using j by (auto simp: nodeMap_iff [OF assms(1)])
    have mx: "nodeMap c z = Some i \<longleftrightarrow> z = ?x" for z
      using i by (auto simp: nodeMap_iff [OF assms(1)])
    have "conductance_stamp (nodeMap c) ?x i j r =
            (if c_nodes r = (?x, ?y) \<or> c_nodes r = (?y, ?x) then - cond_G r else 0)" for r
      using xy g ne by (cases "c_nodes r") (auto simp: conductance_stamp_def Let_def my)
    then have "conductance_stamp (nodeMap c) ?x i j =
            (\<lambda>r. if c_nodes r = (?x, ?y) \<or> c_nodes r = (?y, ?x) then - cond_G r else 0)"
      by (rule ext)
    then show "get_entry A i j = - conductance_between c ?x ?y"
      by (simp add: assemble_entry [OF assms(1,2) i j] conductance_between_def sum_list_if_neg)
    have "conductance_stamp (nodeMap c) ?x i i r =
            (if (fst (c_nodes r) = ?x) \<noteq> (snd (c_nodes r) = ?x) then cond_G r else 0)" for r
      using g by (cases "c_nodes r") (auto simp: conductance_stamp_def Let_def mx)
    then have "conductance_stamp (nodeMap c) ?x i i =
            (\<lambda>r. if (fst (c_nodes r) = ?x) \<noteq> (snd (c_nodes r) = ?x) then cond_G r else 0)"
      by (rule ext)
    then show "get_entry A i i = conductance_at c ?x"
      by (simp add: assemble_entry [OF assms(1,2) i i] conductance_at_def sum_list_if_pos)
  qed
  have sym: "conductance_between c x y = conductance_between c y x" for x y
    by (simp add: conductance_between_def disj_commute)
  from nth_eq_iff_index_eq [OF distinct_unknown_nodes [OF assms(1)], of a b] assms(3,4,5)
  have ne: "n_id (?ns ! a) \<noteq> n_id (?ns ! b)"
    by simp
  from off [OF assms(3,4,5)] off [OF assms(4,3) assms(5) [symmetric]]
    diag [OF assms(3,4,5)] diag [OF assms(4,3) assms(5) [symmetric]] sym
    conductance_at_split [OF ne, of c] conductance_at_split [OF ne [symmetric], of c]
  show ?thesis by simp
qed

lemma ejercicio2_conductances:
  "unknown_nodes ejercicio2 = [node ''n1'' ''Nodo 1'', node ''n2'' ''Nodo 2'']"
  "conductance_between ejercicio2 ''n1'' ''n2'' = 1 / 2000"
  "conductance_at ejercicio2 ''n1'' = 1 / 2000"
  "conductance_at ejercicio2 ''n2'' = 1 / 750"
  by (simp_all add: conductance_between_def conductance_at_def conductances_def resistors_def
        unknown_nodes_def groundNode_def ejercicio2_def component_def node_def convertToOhms_def
        conversions_def Omega_def Let_def)

theorem stamping_symmetry_witness:
  "distinct_node_ids ejercicio2 \<and>
   0 < length (unknown_nodes ejercicio2) \<and> 1 < length (unknown_nodes ejercicio2) \<and>
   (\<exists>A bv eqs. assemble blank_fmt ejercicio2 = (A, bv, eqs) \<and>
      get_entry A 0 1 = - (1 / 2000) \<and> get_entry A 1 0 = - (1 / 2000) \<and>
      get_entry A 0 0 = 1 / 2000 \<and> get_entry A 1 1 = 1 / 750)"
proof -
  have d: "distinct_node_ids ejercicio2"
    by (simp add: distinct_node_ids_def ejercicio2_def node_def)
  have l: "0 < length (unknown_nodes ejercicio2)" "1 < length (unknown_nodes ejercicio2)"
    by (simp_all add: ejercicio2_conductances)
  obtain A bv eqs where a: "assemble blank_fmt ejercicio2 = (A, bv, eqs)"
    by (cases "assemble blank_fmt ejercicio2") auto
  have ne: "(0 :: nat) \<noteq> 1" by simp
  from stamping_symmetry [OF d a l ne]
  have "get_entry A 0 1 = - (1 / 2000) \<and> get_entry A 1 0 = - (1 / 2000) \<and>
        get_entry A 0 0 = 1 / 2000 \<and> get_entry A 1 1 = 1 / 750"
    by (simp add: ejercicio2_conductances node_def)
  with d l a show ?thesis by blast
qed

subsection \<open>The solver on the store computes what the solver on values computes\<close>

lemma copy_holds_rows:
  assumes "copy_holds L n h aug A"
  shows "\<exists>rs. h ! aug = Rows rs \<and> rows_at h aug = rs \<and> length rs = n \<and> aug \<notin> set rs \<and>
          distinct rs \<and> (\<forall>r \<in> set rs. L \<le> r \<and> r < length h) \<and> L \<le> aug \<and> aug < length h \<and>
          A = map (numbers_at h) rs"
proof -
  from assms have c: "copy_above L n h aug" and d: "distinct (rows_at h aug)"
    and a: "read_rows h aug = A"
    by (simp_all add: copy_holds_def)
  from copy_above_rows [OF c] obtain rs where rs: "h ! aug = Rows rs" "length rs = n"
    "aug \<notin> set rs" "\<forall>r \<in> set rs. L \<le> r \<and> r < length h" "L \<le> aug" "aug < length h"
    by blast
  from rs(1) have "rows_at h aug = rs" by (simp add: rows_at_def)
  with rs d a show ?thesis by (auto simp: read_rows_def)
qed

lemma copy_holds_read_entry:
  assumes "copy_holds L n h aug A" and "k < n"
  shows "read_entry h aug k j = A ! k ! j"
proof -
  from copy_holds_rows [OF assms(1)] obtain rs where "rows_at h aug = rs" "length rs = n"
    "A = map (numbers_at h) rs"
    by blast
  with assms(2) show ?thesis by (simp add: read_entry_def)
qed

lemma copy_holds_write_entry:
  assumes "copy_holds L n h aug A" and "k < n"
  shows "copy_holds L n (write_entry h aug k j v) aug (A[k := (A ! k)[j := v]])"
proof -
  from copy_holds_rows [OF assms(1)] obtain rs where rs: "h ! aug = Rows rs" "rows_at h aug = rs"
    "length rs = n" "aug \<notin> set rs" "distinct rs" "\<forall>r \<in> set rs. L \<le> r \<and> r < length h"
    "aug < length h" and A: "A = map (numbers_at h) rs"
    by blast
  let ?ra = "rs ! k"
  let ?h' = "h[?ra := Numbers ((numbers_at h ?ra)[j := v])]"
  from assms(2) rs(3) have mem: "?ra \<in> set rs" by simp
  with rs(4,6) have ra: "?ra \<in> set rs" "?ra < length h" "?ra \<noteq> aug" by auto
  have w: "write_entry h aug k j v = ?h'"
    by (simp add: write_entry_def rs(2) Let_def)
  from ra have rows': "rows_at ?h' aug = rs"
    by (simp add: rows_at_def rs(1))
  have num: "numbers_at ?h' (rs ! i) = (if i = k then (A ! k)[j := v] else A ! i)" if "i < n" for i
    using that assms(2) rs(3,5) ra(2) A
    by (auto simp: numbers_at_def nth_eq_iff_index_eq)
  have "map (numbers_at ?h') rs = A[k := (A ! k)[j := v]]"
    by (rule nth_equalityI) (simp_all add: A rs(3) num nth_list_update)
  with rows' have "read_rows ?h' aug = A[k := (A ! k)[j := v]]"
    by (simp add: read_rows_def)
  moreover from assms(1) have "copy_above L n h aug" by (simp add: copy_holds_def)
  from write_entry_frame [OF this assms(2), of j v] have "copy_above L n ?h' aug"
    by (simp add: w)
  ultimately show ?thesis
    using rows' rs(5) by (simp add: copy_holds_def w)
qed

lemma copy_holds_eliminate_fold:
  assumes "copy_holds L n h aug A" and "k < n" and "i < n"
  shows "copy_holds L n
           (fold (\<lambda>j g. write_entry g aug k j (read_entry g aug k j - f * read_entry g aug i j)) js h)
           aug
           (fold (\<lambda>j a. a[k := (a ! k)[j := a ! k ! j - f * a ! i ! j]]) js A)"
  using assms(1)
proof (induction js arbitrary: h A)
  case Nil
  then show ?case by simp
next
  case (Cons j js)
  from copy_holds_write_entry [OF Cons.prems assms(2)]
  have "copy_holds L n (write_entry h aug k j (A ! k ! j - f * A ! i ! j)) aug
          (A[k := (A ! k)[j := A ! k ! j - f * A ! i ! j]])" .
  from Cons.IH [OF this] show ?case
    by (simp add: copy_holds_read_entry [OF Cons.prems assms(2)]
          copy_holds_read_entry [OF Cons.prems assms(3)])
qed

lemma copy_holds_read_rows: "copy_holds L n h aug A \<Longrightarrow> read_rows h aug = A"
  by (simp add: copy_holds_def)

lemma copy_holds_eliminate_row:
  assumes "copy_holds L n h aug A" and "k < n" and "i < n"
  shows "\<exists>h' A' st'. store_eliminate_row F aug i n k (h, st) = (h', st') \<and>
           eliminate_row F i n k (A, st) = (A', st') \<and> copy_holds L n h' aug A'"
proof -
  let ?f = "A ! k ! i / A ! i ! i"
  note r = copy_holds_read_entry [OF assms(1,2)] copy_holds_read_entry [OF assms(1,3)]
  note fold = copy_holds_eliminate_fold [OF assms, of ?f "[i..<n + 1]"]
  show ?thesis
    using assms(1) fold copy_holds_read_rows [OF fold]
    by (simp add: store_eliminate_row_def eliminate_row_def Let_def r)
qed

lemma copy_holds_eliminate_rows:
  assumes "copy_holds L n h aug A" and "\<forall>k \<in> set ks. k < n" and "i < n"
  shows "\<exists>h' A' st'. fold (store_eliminate_row F aug i n) ks (h, st) = (h', st') \<and>
           fold (eliminate_row F i n) ks (A, st) = (A', st') \<and> copy_holds L n h' aug A'"
  using assms(1,2)
proof (induction ks arbitrary: h A st)
  case Nil
  then show ?case by simp
next
  case (Cons k ks)
  from Cons.prems have k: "k < n" and ks: "\<forall>k \<in> set ks. k < n" by simp_all
  from copy_holds_eliminate_row [OF Cons.prems(1) k assms(3), of F st]
  obtain h1 A1 st1 where 1: "store_eliminate_row F aug i n k (h, st) = (h1, st1)"
    "eliminate_row F i n k (A, st) = (A1, st1)" "copy_holds L n h1 aug A1"
    by blast
  from Cons.IH [OF 1(3) ks, of st1] 1(1,2) show ?case by simp
qed

lemma copy_holds_swap:
  assumes "copy_holds L n h aug A" and "i < n" and "m < n"
  shows "copy_holds L n (h[aug := Rows ((rows_at h aug)[i := rows_at h aug ! m, m := rows_at h aug ! i])])
           aug (A[i := A ! m, m := A ! i])"
proof -
  from copy_holds_rows [OF assms(1)] obtain rs where rs: "h ! aug = Rows rs" "rows_at h aug = rs"
    "length rs = n" "aug \<notin> set rs" "distinct rs" "\<forall>r \<in> set rs. L \<le> r \<and> r < length h"
    "L \<le> aug" "aug < length h" and A: "A = map (numbers_at h) rs"
    by blast
  let ?rs' = "rs[i := rs ! m, m := rs ! i]"
  let ?h' = "h[aug := Rows ?rs']"
  from assms(2,3) rs(3) have mem: "rs ! m \<in> set rs" "rs ! i \<in> set rs" by simp_all
  have sub: "set ?rs' \<subseteq> set rs"
    using set_update_subset_insert [of "rs[i := rs ! m]" m "rs ! i"]
      set_update_subset_insert [of rs i "rs ! m"] mem by blast
  from rs(8) have rows': "rows_at ?h' aug = ?rs'"
    by (simp add: rows_at_def)
  from assms(2,3) rs(3,5) have dist: "distinct ?rs'"
    by simp
  have num: "numbers_at ?h' r = numbers_at h r" if "r \<in> set rs" for r
  proof -
    from that rs(4) have "r \<noteq> aug" by auto
    then show ?thesis by (simp add: numbers_at_def)
  qed
  have "map (numbers_at ?h') ?rs' = map (numbers_at h) ?rs'"
    using sub num by (auto intro!: map_cong)
  also have "\<dots> = A[i := A ! m, m := A ! i]"
    using assms(2,3) rs(3) by (simp add: A map_update)
  finally have read: "read_rows ?h' aug = A[i := A ! m, m := A ! i]"
    by (simp add: read_rows_def rows')
  have "copy_above L n ?h' aug"
    using rs sub by (auto simp: copy_above_def list_all_iff)
  with read dist rows' show ?thesis
    by (simp add: copy_holds_def rs(2))
qed

lemma copy_holds_pivot_round:
  assumes "copy_holds L n h aug A" and "i < n"
  shows "case store_pivot_round F aug i n h st of
           Inl (st', h') \<Rightarrow> pivot_round F i n A st = Inl st'
         | Inr (h', st') \<Rightarrow> (\<exists>A'. pivot_round F i n A st = Inr (A', st') \<and> copy_holds L n h' aug A')"
proof -
  let ?m = "find_pivot A i n"
  have m: "?m < n" using assms(2) by (rule find_pivot_less)
  note rd = copy_holds_read_rows [OF assms(1)]
  show ?thesis
  proof (cases "?m = i")
    case True
    from copy_holds_eliminate_rows [OF assms(1) _ assms(2), of "[i + 1..<n]" F st]
    obtain h' A' st' where "fold (store_eliminate_row F aug i n) [i + 1..<n] (h, st) = (h', st')"
      "fold (eliminate_row F i n) [i + 1..<n] (A, st) = (A', st')" "copy_holds L n h' aug A'"
      by auto
    with True show ?thesis
      by (simp add: store_pivot_round_def pivot_round_def swap_pivot_def Let_def rd
            copy_holds_read_entry [OF assms(1,2)])
  next
    case False
    let ?h1 = "h[aug := Rows ((rows_at h aug)[i := rows_at h aug ! ?m, ?m := rows_at h aug ! i])]"
    let ?A1 = "A[i := A ! ?m, ?m := A ! i]"
    let ?st1 = "st @ [(swap_title i ?m, formatAugmented F ?A1)]"
    from copy_holds_swap [OF assms m] have 1: "copy_holds L n ?h1 aug ?A1" .
    from copy_holds_eliminate_rows [OF 1 _ assms(2), of "[i + 1..<n]" F ?st1]
    obtain h' A' st' where "fold (store_eliminate_row F aug i n) [i + 1..<n] (?h1, ?st1) = (h', st')"
      "fold (eliminate_row F i n) [i + 1..<n] (?A1, ?st1) = (A', st')" "copy_holds L n h' aug A'"
      by auto
    with False show ?thesis
      by (simp add: store_pivot_round_def pivot_round_def swap_pivot_def Let_def rd
            copy_holds_read_rows [OF 1] copy_holds_read_entry [OF 1 assms(2)])
  qed
qed

lemma copy_holds_forward_elimination:
  assumes "copy_holds L n h aug A"
  shows "case store_forward_elimination F aug i n h st of
           Inl (st', h') \<Rightarrow> forward_elimination F i n A st = Inl st'
         | Inr (h', st') \<Rightarrow> forward_elimination F i n A st = Inr (read_rows h' aug, st')"
  using assms
proof (induction F aug i n h st arbitrary: A rule: store_forward_elimination.induct)
  case (1 F aug i n h steps)
  show ?case
  proof (cases "i < n")
    case False
    from False have "store_forward_elimination F aug i n h steps = Inr (h, steps)"
      by (subst store_forward_elimination.simps) simp
    moreover from False have "forward_elimination F i n A steps = Inr (A, steps)"
      by (subst forward_elimination.simps) simp
    ultimately show ?thesis using "1.prems"
      by (simp add: copy_holds_read_rows)
  next
    case True
    note round = copy_holds_pivot_round [OF "1.prems" True, of F steps]
    show ?thesis
    proof (cases "store_pivot_round F aug i n h steps")
      case (Inl failed)
      obtain st' h' where failed: "failed = (st', h')" by (cases failed)
      from round Inl failed have pr: "pivot_round F i n A steps = Inl st'" by simp
      from True Inl have "store_forward_elimination F aug i n h steps = Inl failed"
        by (subst store_forward_elimination.simps) simp
      moreover from True pr have "forward_elimination F i n A steps = Inl st'"
        by (subst forward_elimination.simps) simp
      ultimately show ?thesis by (simp add: failed)
    next
      case (Inr p)
      obtain h' steps' where p: "p = (h', steps')" by (cases p)
      from round Inr p obtain A' where A': "pivot_round F i n A steps = Inr (A', steps')"
        "copy_holds L n h' aug A'"
        by auto
      from True Inr p have sf: "store_forward_elimination F aug i n h steps =
          store_forward_elimination F aug (i + 1) n h' steps'"
        by (subst store_forward_elimination.simps) simp
      from True A'(1) have f: "forward_elimination F i n A steps =
          forward_elimination F (i + 1) n A' steps'"
        by (subst forward_elimination.simps) simp
      from "1.IH" [OF True Inr p [symmetric] A'(2)] show ?thesis
        unfolding sf f .
    qed
  qed
qed

lemma length_indexed: "length (indexed xs) = length xs"
  by (simp add: indexed_def)

lemma copy_rows_fold_eq:
  assumes "take L g = h" and "length h = L" and "\<forall>x \<in> set xs. fst x < L"
  shows "fold (\<lambda>(r, i) (h', acc). (h' @ [Numbers (numbers_at h' r @ [b ! i])], acc @ [length h']))
           xs (g, acc) =
         (g @ map (\<lambda>(r, i). Numbers (numbers_at h r @ [b ! i])) xs,
          acc @ [length g..<length g + length xs])"
  using assms
proof (induction xs arbitrary: g acc)
  case Nil
  then show ?case by simp
next
  case (Cons x xs)
  obtain r i where x: "x = (r, i)" by (cases x)
  with Cons.prems have r: "r < L" by simp
  with Cons.prems(1,2) have "g ! r = h ! r" by (metis nth_take)
  then have n: "numbers_at g r = numbers_at h r" by (simp add: numbers_at_def)
  let ?g = "g @ [Numbers (numbers_at h r @ [b ! i])]"
  let ?f = "\<lambda>(r, i) (h', acc). (h' @ [Numbers (numbers_at h' r @ [b ! i])], acc @ [length h'])"
  from Cons.prems have "take L ?g = h" "\<forall>x \<in> set xs. fst x < L" by auto
  from Cons.IH [OF this(1) Cons.prems(2) this(2), of "acc @ [length g]"]
  have ih: "fold ?f xs (?g, acc @ [length g]) =
      (?g @ map (\<lambda>(r, i). Numbers (numbers_at h r @ [b ! i])) xs,
       acc @ length g # [Suc (length g)..<Suc (length g + length xs)])"
    by (simp del: upt_Suc)
  have step: "fold ?f (x # xs) (g, acc) = fold ?f xs (?g, acc @ [length g])"
    by (simp add: x n)
  have u: "[length g..<length g + length (x # xs)] =
      length g # [Suc (length g)..<Suc (length g + length xs)]"
    by (simp add: upt_conv_Cons del: upt_Suc)
  show ?case
    unfolding step ih u by (simp add: x del: upt_Suc)
qed

lemma copy_augmented_holds:
  assumes "matrix_in_store h M" and "copy_augmented h (ref_data M) b = (h0, aug)"
  shows "copy_holds (length h) (ref_rows M) h0 aug (augment (read_rows h (ref_data M)) b)"
proof -
  let ?L = "length h"
  from assms(1) obtain rs where rs: "rows_at h (ref_data M) = rs" "length rs = ref_rows M"
    "\<forall>r \<in> set rs. r < ?L"
    by (auto simp: matrix_in_store_def rows_at_def list_all_iff split: cell.splits)
  let ?new = "map (\<lambda>(r, i). Numbers (numbers_at h r @ [b ! i])) (indexed rs)"
  let ?acc = "[?L..<?L + length rs]"
  have "\<forall>x \<in> set (indexed rs). fst x < ?L"
    using rs(3) by (auto simp: indexed_def dest: set_zip_leftD)
  from copy_rows_fold_eq [OF _ refl this, of h b "[]"]
  have f: "fold (\<lambda>(r, i) (h', acc). (h' @ [Numbers (numbers_at h' r @ [b ! i])], acc @ [length h']))
            (indexed rs) (h, []) = (h @ ?new, ?acc)"
    by (simp add: indexed_def)
  from assms(2) have h0: "h0 = h @ ?new @ [Rows ?acc]" and aug: "aug = ?L + length rs"
    by (auto simp: copy_augmented_def alloc_def Let_def rs(1) f length_indexed)
  have len: "length ?new = length rs"
    by (simp add: length_indexed)
  have rows0: "rows_at h0 aug = ?acc"
    using len by (simp add: rows_at_def h0 aug nth_append)
  have "map (numbers_at h0) ?acc = augment (map (numbers_at h) rs) b"
  proof (rule nth_equalityI)
    show "length (map (numbers_at h0) ?acc) = length (augment (map (numbers_at h) rs) b)"
      by (simp add: augment_def indexed_def)
  next
    fix j assume "j < length (map (numbers_at h0) ?acc)"
    then have j: "j < length rs" by simp
    then have "h0 ! (?L + j) = Numbers (numbers_at h (rs ! j) @ [b ! j])"
      by (simp add: h0 nth_append indexed_def)
    with j show "map (numbers_at h0) ?acc ! j = augment (map (numbers_at h) rs) b ! j"
      by (simp add: numbers_at_def augment_def indexed_def)
  qed
  then have read: "read_rows h0 aug = augment (read_rows h (ref_data M)) b"
    by (simp add: read_rows_def rows0 rs(1))
  from copy_augmented_frame [OF assms(2)] rs
  have "copy_above ?L (ref_rows M) h0 aug" by simp
  with read rows0 show ?thesis
    by (simp add: copy_holds_def)
qed

lemma store_solve_result:
  assumes "matrix_in_store h M"
  shows "fst (store_solve F M b h) = solve F (matrix_of h M) b"
proof -
  obtain h0 aug where c: "copy_augmented h (ref_data M) b = (h0, aug)"
    by (cases "copy_augmented h (ref_data M) b")
  let ?A = "augment (read_rows h (ref_data M)) b"
  from copy_augmented_holds [OF assms c]
  have holds: "copy_holds (length h) (ref_rows M) h0 aug ?A" .
  note rd = copy_holds_read_rows [OF holds]
  from copy_holds_forward_elimination [OF holds, of F 0 "[initial_record F ?A]"]
  show ?thesis
    by (auto simp: store_solve_def solve_def matrix_of_def c rd Let_def
             split: sum.splits prod.splits)
qed

text \<open>
  C6. For a square matrix object in the store and a right-hand side of its size,
  \<^verbatim>\<open>solve\<close> leaves every cell that existed before the call as it was: the elimination
  writes only to the arrays it has allocated. Hence the matrix of the caller, read after
  the call, is the matrix read before it. The result of the call is the result of the
  solver on values, applied to that matrix.
\<close>

theorem solve_leaves_matrix_unchanged:
  assumes "matrix_in_store h M" and "ref_cols M = ref_rows M" and "length b = ref_rows M"
  shows "take (length h) (snd (store_solve F M b h)) = h \<and>
         matrix_of (snd (store_solve F M b h)) M = matrix_of h M \<and>
         fst (store_solve F M b h) = solve F (matrix_of h M) b"
  using store_solve_frame [OF assms(1)] matrix_of_frame [OF assms(1)]
    store_solve_result [OF assms(1)] by blast

theorem solve_leaves_matrix_unchanged_witness:
  "matrix_in_store store2 matrix2 \<and> ref_cols matrix2 = ref_rows matrix2 \<and>
   length [3, 10 :: real] = ref_rows matrix2 \<and>
   fst (fst (store_solve blank_fmt matrix2 [3, 10] store2)) = Some [1, 2] \<and>
   length (snd (store_solve blank_fmt matrix2 [3, 10] store2)) = 6 \<and>
   take (length store2) (snd (store_solve blank_fmt matrix2 [3, 10] store2)) = store2 \<and>
   data (matrix_of (snd (store_solve blank_fmt matrix2 [3, 10] store2)) matrix2) = [[1, 1], [2, 4]]"
proof -
  have h: "matrix_in_store store2 matrix2" "ref_cols matrix2 = ref_rows matrix2"
    "length [3, 10 :: real] = ref_rows matrix2"
    by (simp_all add: matrix_in_store_def store2_def matrix2_def)
  have e: "fst (fst (store_solve blank_fmt matrix2 [3, 10] store2)) = Some [1, 2]"
    "length (snd (store_solve blank_fmt matrix2 [3, 10] store2)) = 6"
    by code_simp+
  have m: "data (matrix_of store2 matrix2) = [[1, 1], [2, 4]]"
    by (simp add: matrix_of_def read_rows_def rows_at_def numbers_at_def store2_def matrix2_def)
  from solve_leaves_matrix_unchanged [OF h, of blank_fmt] h e m show ?thesis by simp
qed

end
